theory Spec2Isabelle
  imports Complex_Main "HOL-Library.Sublist"
begin

section \<open>Data model (App.tsx, part 1)\<close>

text \<open>
  The strings of the components are modelled as \<open>string\<close>: a list of 8-bit characters
  read as the code points U+0000 to U+00FF (Latin-1), a range that is closed under
  \<open>toLowerCase\<close> and on which \<open>encodeURIComponent\<close> never throws. Game names beyond
  Latin-1 are outside this type; for them the filter of \<open>GamesView\<close> is modelled a second
  time over lists of code points, below. The fields of the interfaces keep their names,
  prefixed where the name is taken in HOL or shared between two interfaces.
\<close>

record GameSystem =
  sys_id :: string
  sys_name :: string
  libRetroFolder :: string
  image :: "string option"

record GameEntry =
  system_id :: string
  system_name :: string
  name :: string
  path :: string

section \<open>Thumbnail caching (App.tsx, part 2)\<close>

text \<open>
  \<open>encodeURIComponent\<close> leaves letters, digits and \<open>- _ . ! ~ * ' ( )\<close> alone and writes
  every other character as the percent-escaped bytes of its UTF-8 encoding: one byte below
  U+0080, two bytes from U+0080 to U+00FF.
\<close>

definition uriUnreserved :: "char \<Rightarrow> bool" where
  "uriUnreserved c =
     (let n = (of_char c :: nat)
      in (65 \<le> n \<and> n \<le> 90) \<or> (97 \<le> n \<and> n \<le> 122) \<or> (48 \<le> n \<and> n \<le> 57)
         \<or> n \<in> set [45, 95, 46, 33, 126, 42, 39, 40, 41])"

definition hexDigit :: "nat \<Rightarrow> char" where
  "hexDigit d = ''0123456789ABCDEF'' ! d"

definition percentByte :: "nat \<Rightarrow> string" where
  "percentByte b = [CHR ''%'', hexDigit (b div 16), hexDigit (b mod 16)]"

definition encodeChar :: "char \<Rightarrow> string" where
  "encodeChar c =
     (let n = (of_char c :: nat)
      in if uriUnreserved c then [c]
         else if n < 128 then percentByte n
         else percentByte (192 + n div 64) @ percentByte (128 + n mod 64))"

definition encodeURIComponent :: "string \<Rightarrow> string" where
  "encodeURIComponent s = concat (map encodeChar s)"

text \<open>
  \<open>String.prototype.replace\<close> with a string pattern replaces the first occurrence only.
\<close>

fun replaceFirst :: "char \<Rightarrow> char \<Rightarrow> string \<Rightarrow> string" where
  "replaceFirst a b [] = []"
| "replaceFirst a b (c # cs) = (if c = a then b # cs else c # replaceFirst a b cs)"

text \<open>
  \<open>localStorage\<close> is a map from keys to strings; \<open>getItem\<close> of an absent key is \<open>null\<close>,
  here \<open>None\<close>. A value passes the test \<open>if (cached)\<close> when it is neither \<open>null\<close> nor the
  empty string. Writes are taken to succeed (no storage quota).
\<close>

type_synonym storage = "string \<rightharpoonup> string"

definition truthy :: "string option \<Rightarrow> bool" where
  "truthy v = (case v of None \<Rightarrow> False | Some s \<Rightarrow> s \<noteq> [])"

definition thumbnailKey :: "GameEntry \<Rightarrow> GameSystem \<Rightarrow> string" where
  "thumbnailKey game system =
     ''thumbnail_'' @ sys_id system @ ''_'' @ replaceFirst (CHR ''&'') (CHR ''_'') (name game)"

definition thumbnailUrl :: "GameEntry \<Rightarrow> GameSystem \<Rightarrow> string" where
  "thumbnailUrl game system =
     (let gameName = replaceFirst (CHR ''&'') (CHR ''_'') (name game);
          base = ''https://thumbnails.libretro.com'';
          folder = encodeURIComponent (libRetroFolder system);
          subfolder = ''Named_Boxarts'';
          gameFile = encodeURIComponent gameName @ ''.png''
      in base @ ''/'' @ folder @ ''/'' @ subfolder @ ''/'' @ gameFile)"

text \<open>
  \<open>getCachedThumbnailUrl\<close> returns the URL together with the storage it leaves behind;
  \<open>thumbnailKey\<close> and \<open>thumbnailUrl\<close> are its \<open>key\<close> and \<open>finalUrl\<close>.
\<close>

definition getCachedThumbnailUrl ::
  "GameEntry \<Rightarrow> GameSystem \<Rightarrow> storage \<Rightarrow> string \<times> storage" where
  "getCachedThumbnailUrl game system localStorage =
     (let key = thumbnailKey game system;
          cached = localStorage key
      in if truthy cached then (the cached, localStorage)
         else (let finalUrl = thumbnailUrl game system
               in (finalUrl, localStorage(key \<mapsto> finalUrl))))"

section \<open>Throttling (App.tsx, part 3)\<close>

text \<open>
  The module variables \<open>tokens\<close> and \<open>lastReset\<close> form the limiter state; times are
  milliseconds as returned by \<open>Date.now()\<close>. \<open>tryAcquire\<close> is one run of the closure of
  that name inside \<open>getThrottleSlot\<close>: it returns whether the promise was resolved, and the
  new state. When it returns \<open>False\<close> the closure has scheduled itself again 50 ms later.
\<close>

record limiter =
  tokens :: int
  lastReset :: int

definition initLimiter :: "int \<Rightarrow> limiter" where
  "initLimiter loadTime = \<lparr>tokens = 3, lastReset = loadTime\<rparr>"

definition tryAcquire :: "int \<Rightarrow> limiter \<Rightarrow> bool \<times> limiter" where
  "tryAcquire now L =
     (let L1 = (if now - lastReset L \<ge> 1000 then L\<lparr>tokens := 3, lastReset := now\<rparr> else L)
      in if tokens L1 > 0 then (True, L1\<lparr>tokens := tokens L1 - 1\<rparr>) else (False, L1))"

text \<open>
  A completed call: who called, when the promise resolved, and the value of \<open>lastReset\<close>
  at that moment (the start of the limiter window the token was taken from).
\<close>

record 'c completion =
  caller :: 'c
  doneAt :: int
  window :: int

text \<open>
  \<open>attempt now L cs\<close>: the callers \<open>cs\<close> run \<open>tryAcquire\<close> one after the other at the
  instant \<open>now\<close>. It returns the limiter state, the calls that completed and the callers
  still waiting, both in order.
\<close>

fun attempt :: "int \<Rightarrow> limiter \<Rightarrow> 'c list \<Rightarrow> limiter \<times> 'c completion list \<times> 'c list" where
  "attempt now L [] = (L, [], [])"
| "attempt now L (c # cs) =
     (case tryAcquire now L of (ok, L1) \<Rightarrow>
        (case attempt now L1 cs of (L2, done, rest) \<Rightarrow>
           if ok then (L2, \<lparr>caller = c, doneAt = now, window = lastReset L1\<rparr> # done, rest)
           else (L2, done, c # rest)))"






section \<open>Systems data (App.tsx, part 4)\<close>

text \<open>
  The table \<open>SYSTEMS\<close>, in the order that sorting by \<open>name.localeCompare\<close> gives it.
\<close>

definition SYSTEMS :: "GameSystem list" where
  "SYSTEMS =
     [\<lparr>sys_id = ''Gameboy'', sys_name = ''Game Boy'',
        libRetroFolder = ''Nintendo - Game Boy'',
        image = Some ''https://upload.wikimedia.org/wikipedia/commons/thumb/f/f2/Nintendo_Game_Boy_Logo.svg/1280px-Nintendo_Game_Boy_Logo.svg.png''\<rparr>,
      \<lparr>sys_id = ''GBA'', sys_name = ''Game Boy Advance'',
        libRetroFolder = ''Nintendo - Game Boy Advance'',
        image = Some ''https://upload.wikimedia.org/wikipedia/commons/thumb/5/50/Game_Boy_Advance_logo.svg/1280px-Game_Boy_Advance_logo.svg.png''\<rparr>,
      \<lparr>sys_id = ''GameboyColor'', sys_name = ''Game Boy Color'',
        libRetroFolder = ''Nintendo - Game Boy Color'',
        image = Some ''https://upload.wikimedia.org/wikipedia/commons/thumb/c/c5/Game_Boy_Color_logo.svg/1280px-Game_Boy_Color_logo.svg.png''\<rparr>,
      \<lparr>sys_id = ''Genesis'', sys_name = ''Genesis'',
        libRetroFolder = ''Sega - Mega Drive - Genesis'',
        image = Some ''https://upload.wikimedia.org/wikipedia/commons/thumb/7/74/Sega_genesis_logo.svg/1280px-Sega_genesis_logo.svg.png''\<rparr>,
      \<lparr>sys_id = ''Nintendo64'', sys_name = ''Nintendo 64'',
        libRetroFolder = ''Nintendo - Nintendo 64'',
        image = Some ''https://upload.wikimedia.org/wikipedia/it/thumb/0/04/Nintendo_64_Logo.svg/1105px-Nintendo_64_Logo.svg.png''\<rparr>,
      \<lparr>sys_id = ''NES'', sys_name = ''Nintendo Entertainment System'',
        libRetroFolder = ''Nintendo - Nintendo Entertainment System'',
        image = Some ''https://upload.wikimedia.org/wikipedia/commons/thumb/0/0d/NES_logo.svg/1920px-NES_logo.svg.png''\<rparr>,
      \<lparr>sys_id = ''PSX'', sys_name = ''PlayStation'',
        libRetroFolder = ''Sony - PlayStation'',
        image = Some ''https://upload.wikimedia.org/wikipedia/commons/thumb/4/4e/Playstation_logo_colour.svg/1280px-Playstation_logo_colour.svg.png''\<rparr>,
      \<lparr>sys_id = ''Saturn'', sys_name = ''Saturn'',
        libRetroFolder = ''Sega - Saturn'',
        image = Some ''https://upload.wikimedia.org/wikipedia/commons/1/14/SEGA_Saturn_logo.png''\<rparr>,
      \<lparr>sys_id = ''SNES'', sys_name = ''Super Nintendo'',
        libRetroFolder = ''Nintendo - Super Nintendo Entertainment System'',
        image = Some ''https://upload.wikimedia.org/wikipedia/commons/thumb/2/2c/SNES_logo.svg/1280px-SNES_logo.svg.png''\<rparr>]"

section \<open>GamesView: filter, pages and keyboard navigation (App.tsx, part 8)\<close>

text \<open>
  \<open>toLowerCase\<close> on Latin-1: the letters A to Z and U+00C0 to U+00DE (without the
  multiplication sign U+00D7) move up by 32; every other character stays.
\<close>

definition toLowerChar :: "char \<Rightarrow> char" where
  "toLowerChar c =
     (let n = (of_char c :: nat)
      in if (65 \<le> n \<and> n \<le> 90) \<or> (192 \<le> n \<and> n \<le> 222 \<and> n \<noteq> 215)
         then char_of (n + 32) else c)"

definition toLowerCase :: "string \<Rightarrow> string" where
  "toLowerCase s = map toLowerChar s"

text \<open>
  \<open>s.includes(t)\<close>: \<open>t\<close> occurs in \<open>s\<close> at some position. The function is the same on
  every representation of strings as lists.
\<close>

fun includes_str :: "'a list \<Rightarrow> 'a list \<Rightarrow> bool" where
  "includes_str [] t = (t = [])"
| "includes_str (c # cs) t = (prefix t (c # cs) \<or> includes_str cs t)"

definition filtered :: "GameEntry list \<Rightarrow> string \<Rightarrow> GameEntry list" where
  "filtered games searchTerm =
     filter (\<lambda>g. includes_str (toLowerCase (name g)) (toLowerCase searchTerm)) games"

text \<open>
  The same filter on names that are lists of Unicode code points. \<open>toLowerCase\<close> follows
  the default case conversion of Unicode: each code point goes to its lower-case mapping,
  but a capital sigma (U+03A3) goes to the final sigma (U+03C2) instead of the small sigma
  (U+03C3) when it ends a word: when a cased letter, then any number of case-ignorable
  characters, come before it, and no such sequence of case-ignorable characters and a
  cased letter comes after it. The tables (lower-case mapping, cased, case-ignorable) are
  those of the Unicode Character Database cut down to the code points that \<open>modelled\<close>
  accepts: Basic Latin, the Latin-1 Supplement, and the Greek letters U+0391 to U+03A9
  and U+03B1 to U+03C9. The statements below only use strings of such code points.
\<close>

type_synonym ustring = "nat list"

definition modelled :: "nat \<Rightarrow> bool" where
  "modelled cp =
     (cp < 256 \<or> (913 \<le> cp \<and> cp \<le> 929) \<or> (931 \<le> cp \<and> cp \<le> 937)
      \<or> (945 \<le> cp \<and> cp \<le> 969))"

definition lowerSimple :: "nat \<Rightarrow> nat" where
  "lowerSimple cp =
     (if (65 \<le> cp \<and> cp \<le> 90) \<or> (192 \<le> cp \<and> cp \<le> 222 \<and> cp \<noteq> 215)
         \<or> (913 \<le> cp \<and> cp \<le> 929) \<or> (931 \<le> cp \<and> cp \<le> 937)
      then cp + 32 else cp)"

definition cased :: "nat \<Rightarrow> bool" where
  "cased cp =
     ((65 \<le> cp \<and> cp \<le> 90) \<or> (97 \<le> cp \<and> cp \<le> 122)
      \<or> cp \<in> set [170, 181, 186]
      \<or> (192 \<le> cp \<and> cp \<le> 214) \<or> (216 \<le> cp \<and> cp \<le> 246)
      \<or> (248 \<le> cp \<and> cp \<le> 255)
      \<or> (913 \<le> cp \<and> cp \<le> 929) \<or> (931 \<le> cp \<and> cp \<le> 937)
      \<or> (945 \<le> cp \<and> cp \<le> 969))"

definition caseIgnorable :: "nat \<Rightarrow> bool" where
  "caseIgnorable cp = (cp \<in> set [39, 46, 58, 94, 96, 168, 173, 175, 180, 183, 184])"

text \<open>
  \<open>casedNext cs\<close>: \<open>cs\<close> starts with any number of case-ignorable characters followed by
  a cased letter. Applied to the text after a sigma, and to the text before it read
  backwards.
\<close>

fun casedNext :: "ustring \<Rightarrow> bool" where
  "casedNext [] = False"
| "casedNext (c # cs) = (if caseIgnorable c then casedNext cs else cased c)"

fun lowerFrom :: "ustring \<Rightarrow> ustring \<Rightarrow> ustring" where
  "lowerFrom prev [] = []"
| "lowerFrom prev (c # rest) =
     (if c = 931 \<and> casedNext prev \<and> \<not> casedNext rest then 962 else lowerSimple c)
       # lowerFrom (c # prev) rest"

definition toLowerCaseU :: "ustring \<Rightarrow> ustring" where
  "toLowerCaseU s = lowerFrom [] s"

text \<open>
  \<open>nameMatches\<close> is the predicate of the filter,
  \<open>g.name.toLowerCase().includes(searchTerm.toLowerCase())\<close>, on the name of the game.
\<close>

definition nameMatches :: "ustring \<Rightarrow> ustring \<Rightarrow> bool" where
  "nameMatches nm t = includes_str (toLowerCaseU nm) (toLowerCaseU t)"

definition filteredNames :: "ustring list \<Rightarrow> ustring \<Rightarrow> ustring list" where
  "filteredNames names t = filter (\<lambda>nm. nameMatches nm t) names"

text \<open>The code points of a Latin-1 string.\<close>

definition codePoints :: "string \<Rightarrow> ustring" where
  "codePoints s = map of_char s"

text \<open>
  \<open>Array.prototype.slice(start, end)\<close> on integers: a negative bound counts from the end
  of the array, both bounds are brought into \<open>[0, length]\<close>, and an empty range gives the
  empty array.
\<close>

definition slice :: "'a list \<Rightarrow> int \<Rightarrow> int \<Rightarrow> 'a list" where
  "slice xs start fin =
     (let len = int (length xs);
          k = (if start < 0 then max (len + start) 0 else min start len);
          final = (if fin < 0 then max (len + fin) 0 else min fin len)
      in take (nat (max (final - k) 0)) (drop (nat k) xs))"

text \<open>
  The page size is the constant \<open>itemsPerPage = 10\<close> and the column count the constant
  \<open>colCount = 5\<close> of the component; the functions below take them as their first argument.
  \<open>Math.ceil\<close> of the quotient is the ceiling of the real quotient (the quotient of an
  array length by 10 is far inside the range where floating point rounds it to the same
  side).
\<close>

definition itemsPerPage :: int where
  "itemsPerPage = 10"

definition colCount :: int where
  "colCount = 5"

definition totalPages :: "int \<Rightarrow> 'a list \<Rightarrow> int" where
  "totalPages ipp flt = \<lceil>real (length flt) / real_of_int ipp\<rceil>"

definition pagedGames :: "int \<Rightarrow> 'a list \<Rightarrow> int \<Rightarrow> 'a list" where
  "pagedGames ipp flt page =
     (let startIndex = (page - 1) * ipp;
          endIndex = startIndex + ipp
      in slice flt startIndex endIndex)"

definition handlePrev :: "int \<Rightarrow> int" where
  "handlePrev p = max 1 (p - 1)"

definition handleNext :: "int \<Rightarrow> int \<Rightarrow> int" where
  "handleNext tp p = min tp (p + 1)"

text \<open>
  \<open>navigateByArrow\<close> computes \<open>newIndex\<close> from the key, the index of the focused tile and
  \<open>pagedGames.length\<close>; the component then focuses \<open>itemRefs.current[newIndex]\<close> when that
  element exists. The function below returns \<open>newIndex\<close>.
\<close>

definition navigateByArrow :: "int \<Rightarrow> int \<Rightarrow> string \<Rightarrow> int \<Rightarrow> int" where
  "navigateByArrow cols pagedLen key idx =
     (if key = ''ArrowLeft'' then max (idx - 1) 0
      else if key = ''ArrowRight'' then min (idx + 1) (pagedLen - 1)
      else if key = ''ArrowUp'' then max (idx - cols) 0
      else if key = ''ArrowDown'' then min (idx + cols) (pagedLen - 1)
      else idx)"

section \<open>The App component as a state machine (App.tsx, part 5)\<close>

text \<open>
  \<open>String.prototype.trim\<close> removes white space at both ends; in Latin-1 the white space
  characters are tab, line feed, vertical tab, form feed, carriage return, space and the
  no-break space.
\<close>

definition isWhiteSpace :: "char \<Rightarrow> bool" where
  "isWhiteSpace c = ((of_char c :: nat) \<in> set [9, 10, 11, 12, 13, 32, 160])"

definition trim :: "string \<Rightarrow> string" where
  "trim s = rev (dropWhile isWhiteSpace (rev (dropWhile isWhiteSpace s)))"

text \<open>
  A network call as \<open>throttledFetch\<close> receives it: the URL, built from the device address
  when the call is issued, and for a search the \<open>query\<close> and \<open>system\<close> of the body. A
  request remembers which effect issued it, since that decides what its continuation does
  with the response.
\<close>

datatype call =
    IndexCall string
  | SearchCall string string string

datatype origin = GenerateIndex | DoGlobalSearch | FetchGames

record request =
  origin :: origin
  call :: call

text \<open>
  How a request ends: \<open>resp.ok\<close> with the \<open>data\<close> array of the body (of type
  \<open>GameEntry[]\<close> by the \<open>SearchResponse\<close> interface, so \<open>data.data || []\<close> is \<open>data.data\<close>),
  a response that is not ok with its \<open>statusText\<close>, or a rejection with the message of
  the error.
\<close>

datatype outcome =
    RespOk "GameEntry list"
  | RespNotOk string
  | Rejected string

text \<open>The state of a mounted \<open>GamesView\<close>, with its pending debounce timeout.\<close>

record gamesView =
  searchInput :: string
  searchTerm :: string
  page :: int
  viewTimer :: "(nat \<times> string) option"

text \<open>
  The state of \<open>App\<close>: its \<open>useState\<close> cells (without \<open>darkMode\<close>, which only styles);
  \<open>view\<close>, the \<open>GamesView\<close> instance while one is mounted; \<open>timer\<close>, the pending timeout of
  the debounce effect with its deadline and the input it captured; \<open>clock\<close>, the time in
  milliseconds; \<open>pending\<close>, the calls handed to \<open>throttledFetch\<close> and not yet settled,
  whether they wait for a throttle slot or for the network. Two logs are kept for the
  statements below: \<open>calls\<close>, every call handed to \<open>throttledFetch\<close> with the time it was
  issued, and \<open>commits\<close>, every run of the debounce callback with its time and value.
  The effect that copies \<open>misterIp\<close> to \<open>localStorage\<close> and the thumbnail look-ups done
  while rendering are left out: nothing below reads what they write.
\<close>

record app =
  error :: "string option"
  indexReady :: bool
  misterIp :: string
  settingsOpen :: bool
  tempIp :: string
  selectedSystem :: "GameSystem option"
  loadingGames :: bool
  games :: "GameEntry list"
  globalSearchInput :: string
  globalSearchTerm :: string
  globalResults :: "GameEntry list"
  globalLoading :: bool
  view :: "gamesView option"
  timer :: "(nat \<times> string) option"
  clock :: nat
  pending :: "request list"
  calls :: "(nat \<times> call) list"
  commits :: "(nat \<times> string) list"

definition getApiUrl :: "app \<Rightarrow> string" where
  "getApiUrl st = ''http://'' @ misterIp st @ '':8182''"

definition throttledFetch :: "origin \<Rightarrow> call \<Rightarrow> app \<Rightarrow> app" where
  "throttledFetch og c st =
     st\<lparr>pending := pending st @ [\<lparr>origin = og, call = c\<rparr>],
        calls := calls st @ [(clock st, c)]\<rparr>"

subsection \<open>The effects\<close>

text \<open>
  Each effect is a function on the state, run when one of its dependencies has changed.
  The debounce effect clears the previous timeout and sets a new one, so the new timer
  replaces the old.
\<close>

definition debounceEffect :: "app \<Rightarrow> app" where
  "debounceEffect st = st\<lparr>timer := Some (clock st + 500, globalSearchInput st)\<rparr>"

definition generateIndex :: "app \<Rightarrow> app" where
  "generateIndex st =
     throttledFetch GenerateIndex (IndexCall (getApiUrl st @ ''/api/games/index'')) st"

definition doGlobalSearch :: "app \<Rightarrow> app" where
  "doGlobalSearch st =
     (if \<not> indexReady st then st
      else if selectedSystem st \<noteq> None then st
      else if trim (globalSearchTerm st) = [] then st\<lparr>globalResults := []\<rparr>
      else throttledFetch DoGlobalSearch
             (SearchCall (getApiUrl st @ ''/api/games/search'') (trim (globalSearchTerm st)) [])
             (st\<lparr>globalLoading := True, error := None\<rparr>))"

definition fetchGames :: "app \<Rightarrow> app" where
  "fetchGames st =
     (case selectedSystem st of
        None \<Rightarrow> st\<lparr>games := []\<rparr>
      | Some s \<Rightarrow>
          throttledFetch FetchGames
            (SearchCall (getApiUrl st @ ''/api/games/search'') [] (sys_id s))
            (st\<lparr>loadingGames := True, error := None\<rparr>))"

text \<open>
  \<open>GamesView\<close> is rendered when \<open>indexReady && selectedSystem\<close>. Mounting it creates its
  state and runs its two effects (the timeout for the empty input, and \<open>setPage(1)\<close>);
  unmounting it drops the state and clears the timeout.
\<close>

definition gamesViewShown :: "app \<Rightarrow> bool" where
  "gamesViewShown st = (indexReady st \<and> selectedSystem st \<noteq> None)"

definition mountGamesView :: "nat \<Rightarrow> gamesView" where
  "mountGamesView now =
     \<lparr>searchInput = [], searchTerm = [], page = 1, viewTimer = Some (now + 500, [])\<rparr>"

definition render :: "app \<Rightarrow> app" where
  "render st =
     (if gamesViewShown st
      then (case view st of
              None \<Rightarrow> st\<lparr>view := Some (mountGamesView (clock st))\<rparr>
            | Some gv \<Rightarrow> st)
      else st\<lparr>view := None\<rparr>)"

subsection \<open>State setters\<close>

text \<open>
  A setter called with the value the cell already holds changes nothing and runs no
  effect. Otherwise the component renders again and the effects that depend on the cell
  run, in the order the component declares them.
\<close>

definition setGlobalSearchInput :: "string \<Rightarrow> app \<Rightarrow> app" where
  "setGlobalSearchInput v st =
     (if v = globalSearchInput st then st else debounceEffect (st\<lparr>globalSearchInput := v\<rparr>))"

definition setGlobalSearchTerm :: "string \<Rightarrow> app \<Rightarrow> app" where
  "setGlobalSearchTerm v st =
     (if v = globalSearchTerm st then st else doGlobalSearch (st\<lparr>globalSearchTerm := v\<rparr>))"

definition setSelectedSystem :: "GameSystem option \<Rightarrow> app \<Rightarrow> app" where
  "setSelectedSystem x st =
     (if x = selectedSystem st then st
      else fetchGames (doGlobalSearch (render (st\<lparr>selectedSystem := x\<rparr>))))"

definition setMisterIp :: "string \<Rightarrow> app \<Rightarrow> app" where
  "setMisterIp v st =
     (if v = misterIp st then st
      else fetchGames (doGlobalSearch (generateIndex (st\<lparr>misterIp := v\<rparr>))))"

definition setIndexReady :: "bool \<Rightarrow> app \<Rightarrow> app" where
  "setIndexReady b st =
     (if b = indexReady st then st else doGlobalSearch (render (st\<lparr>indexReady := b\<rparr>)))"

definition setSearchInput :: "nat \<Rightarrow> string \<Rightarrow> gamesView \<Rightarrow> gamesView" where
  "setSearchInput now v gv =
     (if v = searchInput gv then gv
      else gv\<lparr>searchInput := v, viewTimer := Some (now + 500, v)\<rparr>)"

definition setSearchTerm :: "string \<Rightarrow> gamesView \<Rightarrow> gamesView" where
  "setSearchTerm v gv = (if v = searchTerm gv then gv else gv\<lparr>searchTerm := v, page := 1\<rparr>)"

subsection \<open>Timers and responses\<close>

text \<open>
  \<open>fireTimer t\<close> runs the debounce callback when its deadline is at most \<open>t\<close>: the
  callback runs at its deadline and calls \<open>setGlobalSearchTerm\<close> with the input it
  captured. \<open>fireViewTimer\<close> does the same for the timeout of \<open>GamesView\<close>, whose change of
  \<open>searchTerm\<close> runs the effect \<open>setPage(1)\<close>.
\<close>

definition fireTimer :: "nat \<Rightarrow> app \<Rightarrow> app" where
  "fireTimer t st =
     (case timer st of
        None \<Rightarrow> st
      | Some (deadline, v) \<Rightarrow>
          if deadline \<le> t
          then setGlobalSearchTerm v
                 (st\<lparr>timer := None, clock := deadline,
                     commits := commits st @ [(deadline, v)]\<rparr>)
          else st)"

definition fireViewTimer :: "nat \<Rightarrow> app \<Rightarrow> app" where
  "fireViewTimer t st =
     (case view st of
        None \<Rightarrow> st
      | Some gv \<Rightarrow>
          (case viewTimer gv of
             None \<Rightarrow> st
           | Some (deadline, v) \<Rightarrow>
               if deadline \<le> t
               then st\<lparr>view := Some (setSearchTerm v (gv\<lparr>viewTimer := None\<rparr>)),
                       clock := deadline\<rparr>
               else st))"

definition viewTimerFirst :: "app \<Rightarrow> bool" where
  "viewTimerFirst st =
     (case (view st, timer st) of
        (Some gv, Some (d, v)) \<Rightarrow>
          (case viewTimer gv of Some (dv, w) \<Rightarrow> dv < d | None \<Rightarrow> False)
      | _ \<Rightarrow> False)"

text \<open>\<open>elapse d\<close>: \<open>d\<close> milliseconds pass; the timeouts that fall due run, earliest first.\<close>

definition elapse :: "nat \<Rightarrow> app \<Rightarrow> app" where
  "elapse d st =
     (let t = clock st + d
      in (if viewTimerFirst st then fireTimer t (fireViewTimer t st)
          else fireViewTimer t (fireTimer t st))\<lparr>clock := t\<rparr>)"

text \<open>
  \<open>settle r out\<close>: the continuation of the effect that issued \<open>r\<close>, run with the outcome
  \<open>out\<close> of the call: the code after \<open>await throttledFetch(...)\<close> with its \<open>catch\<close> and
  \<open>finally\<close> blocks.
\<close>

definition settle :: "request \<Rightarrow> outcome \<Rightarrow> app \<Rightarrow> app" where
  "settle r out st =
     (case origin r of
        GenerateIndex \<Rightarrow>
          (case out of
             RespOk d \<Rightarrow> setIndexReady True st
           | RespNotOk txt \<Rightarrow> st\<lparr>error := Some (''Index generation failed: '' @ txt)\<rparr>
           | Rejected msg \<Rightarrow> st\<lparr>error := Some msg\<rparr>)
      | DoGlobalSearch \<Rightarrow>
          (case out of
             RespOk d \<Rightarrow> st\<lparr>globalResults := d, globalLoading := False\<rparr>
           | RespNotOk txt \<Rightarrow>
               st\<lparr>error := Some (''Global Search failed: '' @ txt), globalLoading := False\<rparr>
           | Rejected msg \<Rightarrow> st\<lparr>error := Some msg, globalLoading := False\<rparr>)
      | FetchGames \<Rightarrow>
          (case out of
             RespOk d \<Rightarrow> st\<lparr>games := d, loadingGames := False\<rparr>
           | RespNotOk txt \<Rightarrow>
               st\<lparr>error := Some (''Search failed: '' @ txt), loadingGames := False\<rparr>
           | Rejected msg \<Rightarrow> st\<lparr>error := Some msg, loadingGames := False\<rparr>))"

subsection \<open>Events\<close>

text \<open>
  What can happen to the mounted application: input into the global search box, a click
  on a system tile, the back button, input into the filter box of \<open>GamesView\<close>, the two
  pager buttons, the settings dialog (open, edit the address, save, close), the passing
  of time, and the settling of the pending request at a position of \<open>pending\<close>.
  \<open>enabled\<close> says whether the element that raises the event is rendered (and, for a
  button, not disabled); \<open>handle\<close> is its handler.
\<close>

datatype event =
    TypeGlobal string
  | SelectSystem GameSystem
  | Back
  | TypeFilter string
  | ClickPrev
  | ClickNext
  | OpenSettings
  | TypeIp string
  | SaveSettings
  | CloseSettings
  | Elapse nat
  | Settle nat outcome

definition pagerShown :: "app \<Rightarrow> gamesView \<Rightarrow> bool" where
  "pagerShown st gv =
     (let flt = filtered (games st) (searchTerm gv)
      in totalPages itemsPerPage flt > 1 \<and> length flt > 0)"

fun enabled :: "event \<Rightarrow> app \<Rightarrow> bool" where
  "enabled (TypeGlobal v) st = (indexReady st \<and> selectedSystem st = None)"
| "enabled (SelectSystem s) st =
     (indexReady st \<and> selectedSystem st = None \<and> trim (globalSearchTerm st) = []
      \<and> s \<in> set SYSTEMS)"
| "enabled Back st = gamesViewShown st"
| "enabled (TypeFilter v) st = gamesViewShown st"
| "enabled ClickPrev st =
     (gamesViewShown st \<and>
      (case view st of None \<Rightarrow> False | Some gv \<Rightarrow> pagerShown st gv \<and> \<not> page gv \<le> 1))"
| "enabled ClickNext st =
     (gamesViewShown st \<and>
      (case view st of
         None \<Rightarrow> False
       | Some gv \<Rightarrow>
           pagerShown st gv
           \<and> \<not> page gv \<ge> totalPages itemsPerPage (filtered (games st) (searchTerm gv))))"
| "enabled OpenSettings st = True"
| "enabled (TypeIp v) st = settingsOpen st"
| "enabled SaveSettings st = settingsOpen st"
| "enabled CloseSettings st = settingsOpen st"
| "enabled (Elapse d) st = True"
| "enabled (Settle i out) st = (i < length (pending st))"

fun handle :: "event \<Rightarrow> app \<Rightarrow> app" where
  "handle (TypeGlobal v) st = setGlobalSearchInput v st"
| "handle (SelectSystem s) st = setSelectedSystem (Some s) st"
| "handle Back st = setSelectedSystem None st"
| "handle (TypeFilter v) st =
     (case view st of
        None \<Rightarrow> st
      | Some gv \<Rightarrow> st\<lparr>view := Some (setSearchInput (clock st) v gv)\<rparr>)"
| "handle ClickPrev st =
     (case view st of
        None \<Rightarrow> st
      | Some gv \<Rightarrow> st\<lparr>view := Some (gv\<lparr>page := handlePrev (page gv)\<rparr>)\<rparr>)"
| "handle ClickNext st =
     (case view st of
        None \<Rightarrow> st
      | Some gv \<Rightarrow>
          st\<lparr>view := Some (gv\<lparr>page :=
                handleNext (totalPages itemsPerPage (filtered (games st) (searchTerm gv)))
                  (page gv)\<rparr>)\<rparr>)"
| "handle OpenSettings st = st\<lparr>tempIp := misterIp st, settingsOpen := True\<rparr>"
| "handle (TypeIp v) st = st\<lparr>tempIp := v\<rparr>"
| "handle SaveSettings st =
     (setMisterIp (if tempIp st = [] then ''mister'' else tempIp st) st)\<lparr>settingsOpen := False\<rparr>"
| "handle CloseSettings st = st\<lparr>settingsOpen := False\<rparr>"
| "handle (Elapse d) st = elapse d st"
| "handle (Settle i out) st =
     settle (pending st ! i) out
       (st\<lparr>pending := take i (pending st) @ drop (Suc i) (pending st)\<rparr>)"

definition step :: "event \<Rightarrow> app \<Rightarrow> app" where
  "step e st = (if enabled e st then handle e st else st)"

fun run :: "event list \<Rightarrow> app \<Rightarrow> app" where
  "run [] st = st"
| "run (e # es) st = run es (step e st)"

text \<open>
  Mounting \<open>App\<close>: the initial cells (the address read from storage, or \<open>mister.local\<close>),
  then the effects in order: the debounce timeout, the index call, the global search
  (which returns at once, the index not being ready) and the games effect (which clears
  \<open>games\<close>).
\<close>

definition mountApp :: "string option \<Rightarrow> app" where
  "mountApp stored =
     (let ip = (if truthy stored then the stored else ''mister.local'')
      in fetchGames (doGlobalSearch (generateIndex (debounceEffect
           \<lparr>error = None, indexReady = False, misterIp = ip, settingsOpen = False,
            tempIp = ip, selectedSystem = None, loadingGames = False, games = [],
            globalSearchInput = [], globalSearchTerm = [], globalResults = [],
            globalLoading = False, view = None, timer = None, clock = 0,
            pending = [], calls = [], commits = []\<rparr>))))"

text \<open>
  The search scope of the specification, read off the state: global when no system is
  selected, otherwise the selected system.
\<close>

datatype SearchScope = Global | System GameSystem

text \<open>
  What \<open>GamesView\<close> shows: the tiles of \<open>pagedGames\<close>, the slice for the current page of
  the games kept by the filter for the committed \<open>searchTerm\<close>.
\<close>

definition shownGames :: "app \<Rightarrow> GameEntry list" where
  "shownGames st =
     (case view st of
        None \<Rightarrow> []
      | Some gv \<Rightarrow> pagedGames itemsPerPage (filtered (games st) (searchTerm gv)) (page gv))"

definition scope :: "app \<Rightarrow> SearchScope" where
  "scope st = (case selectedSystem st of None \<Rightarrow> Global | Some s \<Rightarrow> System s)"

section \<open>Notions of the specification\<close>

text \<open>
  The definitions of this section follow the words of the specification, not the code;
  the theorems below compare the code with them.
\<close>

text \<open>The clamp of the grid navigator: \<open>x\<close> brought into \<open>[0, itemCount - 1]\<close>.\<close>

definition clampIndex :: "int \<Rightarrow> int \<Rightarrow> int" where
  "clampIndex itemCount x = max 0 (min (itemCount - 1) x)"

text \<open>The clamp of the paginator: \<open>x\<close> brought into \<open>[1, totalPages]\<close>.\<close>

definition clampPage :: "int \<Rightarrow> int \<Rightarrow> int" where
  "clampPage tp x = max 1 (min tp x)"

text \<open>
  The slice \<open>items[a : b]\<close> in the notation of the paginator's contract: a negative bound
  counts from the end, bounds beyond the list are cut, and the result holds the items at
  the positions from the lower bound up to, not including, the upper one.
\<close>

definition pythonSlice :: "'a list \<Rightarrow> int \<Rightarrow> int \<Rightarrow> 'a list" where
  "pythonSlice items a b =
     (let len = int (length items);
          lo = (if a < 0 then max (a + len) 0 else min a len);
          hi = (if b < 0 then max (b + len) 0 else min b len)
      in map (\<lambda>i. items ! i) [nat lo ..< nat hi])"

text \<open>
  Containment as a case-insensitive substring: some stretch of the name has the length of
  the term and agrees with it position by position up to the case of letters. Two
  characters agree up to case when they are equal or one is an upper-case letter and the
  other its lower-case form, 32 code points above.
\<close>

definition upperCaseLetter :: "char \<Rightarrow> bool" where
  "upperCaseLetter c =
     (let n = (of_char c :: nat)
      in (65 \<le> n \<and> n \<le> 90) \<or> (192 \<le> n \<and> n \<le> 214) \<or> (216 \<le> n \<and> n \<le> 222))"

definition sameIgnoringCase :: "char \<Rightarrow> char \<Rightarrow> bool" where
  "sameIgnoringCase c d =
     (c = d
      \<or> (upperCaseLetter c \<and> (of_char d :: nat) = of_char c + 32)
      \<or> (upperCaseLetter d \<and> (of_char c :: nat) = of_char d + 32))"

definition containsIgnoringCase :: "string \<Rightarrow> string \<Rightarrow> bool" where
  "containsIgnoringCase nm term =
     (\<exists>u v w. nm = u @ v @ w \<and> list_all2 sameIgnoringCase v term)"

text \<open>The invariant of the limiter state: \<open>tokens\<close> lies in \<open>[0, capacity]\<close>, capacity 3.\<close>

definition tokensInRange :: "limiter \<Rightarrow> bool" where
  "tokensInRange L = (0 \<le> tokens L \<and> tokens L \<le> 3)"





text \<open>
  A state is \<open>viewConsistent\<close> when a \<open>GamesView\<close> instance exists exactly if the component
  is rendered. The events that only filter and page the list shown by \<open>GamesView\<close>, with
  the passing of time that lets its debounce run, are the \<open>filterEvent\<close>s.
\<close>

definition viewConsistent :: "app \<Rightarrow> bool" where
  "viewConsistent st = ((view st \<noteq> None) = gamesViewShown st)"

definition filterEvent :: "event \<Rightarrow> bool" where
  "filterEvent e =
     (case e of
        TypeFilter v \<Rightarrow> True
      | ClickPrev \<Rightarrow> True
      | ClickNext \<Rightarrow> True
      | Elapse d \<Rightarrow> True
      | _ \<Rightarrow> False)"

section \<open>Concrete inputs\<close>

definition gameA :: GameEntry where
  "gameA = \<lparr>system_id = ''NES'', system_name = ''Nintendo Entertainment System'',
             name = ''Zelda II'', path = ''/media/fat/games/NES/Zelda II.nes''\<rparr>"

definition gameB :: GameEntry where
  "gameB = \<lparr>system_id = ''NES'', system_name = ''Nintendo Entertainment System'',
             name = ''Super MARIO Bros.'', path = ''/media/fat/games/NES/Super MARIO Bros.nes''\<rparr>"

definition gameC :: GameEntry where
  "gameC = \<lparr>system_id = ''Genesis'', system_name = ''Genesis'',
             name = ''Sonic & Knuckles'', path = ''/media/fat/games/Genesis/Sonic & Knuckles.md''\<rparr>"

definition gameD :: GameEntry where
  "gameD = \<lparr>system_id = ''NES'', system_name = ''Nintendo Entertainment System'',
             name = ''Dr. Mario'', path = ''/media/fat/games/NES/Dr. Mario.nes''\<rparr>"

text \<open>Lists of any length of games of one system, with names \<open>Game AA\<close>, \<open>Game AB\<close>, ...\<close>

definition numberedGame :: "nat \<Rightarrow> GameEntry" where
  "numberedGame i =
     \<lparr>system_id = ''NES'', system_name = ''Nintendo Entertainment System'',
      name = ''Game '' @ [char_of (65 + i div 26), char_of (65 + i mod 26)],
      path = ''/media/fat/games/NES/Game '' @ [char_of (65 + i div 26), char_of (65 + i mod 26)]
               @ ''.nes''\<rparr>"

definition fetchedList :: "nat \<Rightarrow> GameEntry list" where
  "fetchedList n = map numberedGame [0 ..< n]"

definition systemNES :: GameSystem where
  "systemNES = SYSTEMS ! 5"

definition systemGenesis :: GameSystem where
  "systemGenesis = SYSTEMS ! 3"

text \<open>
  The application after mounting with nothing stored and a successful index call; the
  same after a global search for \<open>zelda\<close> was issued and the device address was then
  changed in the settings while that search was pending; and the application after
  \<open>zelda\<close> was typed and, 100 ms later and before the debounce ran, a system was selected.
\<close>

definition readyApp :: app where
  "readyApp = run [Settle 0 (RespOk [])] (mountApp None)"

definition addressChanged :: app where
  "addressChanged =
     run [TypeGlobal ''zelda'', Elapse 500, Elapse 100, OpenSettings, TypeIp ''10.0.0.2'',
          SaveSettings, Elapse 200] readyApp"

definition systemEntered :: app where
  "systemEntered = run [TypeGlobal ''zelda'', Elapse 100, SelectSystem systemNES] readyApp"

text \<open>
  The application after a system was selected and, 300 ms later, its list of three games
  arrived. The application after a system was selected, a list of 50 games arrived and
  the next button was pressed four times; and the same after the device address was then
  changed in the settings and the new device answered with a list of 23 games.
\<close>

definition fetchedNES :: app where
  "fetchedNES =
     run [SelectSystem systemNES, Elapse 300, Settle 0 (RespOk [gameA, gameB, gameD])] readyApp"

definition pageFive :: app where
  "pageFive =
     run [SelectSystem systemNES, Settle 0 (RespOk (fetchedList 50)),
          ClickNext, ClickNext, ClickNext, ClickNext] readyApp"

definition shrunkList :: app where
  "shrunkList =
     run [OpenSettings, TypeIp ''10.0.0.2'', SaveSettings, Settle 1 (RespOk (fetchedList 23))]
       pageFive"

section \<open>Grid navigation\<close>

text \<open>
  Claim C7. For every item count of at least one, every non-negative column count and
  every current index inside \<open>[0, itemCount - 1]\<close>, ArrowLeft and ArrowRight move by one
  and ArrowUp and ArrowDown by the column count, each result clamped to
  \<open>[0, itemCount - 1]\<close> without wrapping. With seven items and five columns, ArrowDown
  from 2 gives 6, ArrowUp from 6 gives 1 and ArrowLeft from 0 stays at 0.
\<close>

theorem navigateByArrow_clamped:
  assumes "1 \<le> n" and "0 \<le> cols" and "0 \<le> idx" and "idx \<le> n - 1"
  shows "navigateByArrow cols n ''ArrowLeft'' idx = clampIndex n (idx - 1)
    \<and> navigateByArrow cols n ''ArrowRight'' idx = clampIndex n (idx + 1)
    \<and> navigateByArrow cols n ''ArrowUp'' idx = clampIndex n (idx - cols)
    \<and> navigateByArrow cols n ''ArrowDown'' idx = clampIndex n (idx + cols)
    \<and> 0 \<le> navigateByArrow cols n key idx \<and> navigateByArrow cols n key idx \<le> n - 1
    \<and> navigateByArrow colCount 7 ''ArrowDown'' 2 = 6
    \<and> navigateByArrow colCount 7 ''ArrowUp'' 6 = 1
    \<and> navigateByArrow colCount 7 ''ArrowLeft'' 0 = 0"
  using assms by (auto simp add: navigateByArrow_def clampIndex_def colCount_def)

theorem navigateByArrow_clamped_witness:
  "navigateByArrow 5 7 ''ArrowDown'' 2 = clampIndex 7 (2 + 5)
   \<and> navigateByArrow 5 7 ''ArrowDown'' 2 = 6
   \<and> navigateByArrow 5 7 ''ArrowUp'' 6 = 1
   \<and> navigateByArrow 5 7 ''ArrowLeft'' 0 = 0"
  using navigateByArrow_clamped [of 7 5 2] navigateByArrow_clamped [of 7 5 6]
    navigateByArrow_clamped [of 7 5 0]
  by (simp add: clampIndex_def)

section \<open>Pagination\<close>

lemma take_drop_nth:
  "k + n \<le> length xs \<Longrightarrow> take n (drop k xs) = map (\<lambda>i. xs ! i) [k ..< k + n]"
  by (simp add: list_eq_iff_nth_eq)

lemma slice_python: "slice xs a b = pythonSlice xs a b"
proof -
  define len where "len = int (length xs)"
  define lo where "lo = (if a < 0 then max (a + len) 0 else min a len)"
  define hi where "hi = (if b < 0 then max (b + len) 0 else min b len)"
  have r: "0 \<le> lo" "lo \<le> len" "0 \<le> hi" "hi \<le> len"
    by (auto simp: lo_def hi_def len_def)
  have s: "slice xs a b = take (nat (max (hi - lo) 0)) (drop (nat lo) xs)"
    by (simp add: slice_def Let_def lo_def hi_def len_def add.commute)
  have p: "pythonSlice xs a b = map (\<lambda>i. xs ! i) [nat lo ..< nat hi]"
    by (simp add: pythonSlice_def Let_def lo_def hi_def len_def)
  show ?thesis
  proof (cases "lo \<le> hi")
    case True
    then have "nat lo + nat (hi - lo) \<le> length xs" "nat lo + nat (hi - lo) = nat hi"
      using r by (auto simp: len_def)
    with take_drop_nth [of "nat lo" "nat (hi - lo)" xs] True show ?thesis
      by (simp add: s p max_def)
  next
    case False
    then show ?thesis using r by (simp add: s p max_def)
  qed
qed

lemma pagedGames_python:
  "pagedGames ipp xs pg = pythonSlice xs ((pg - 1) * ipp) (pg * ipp)"
proof -
  have "(pg - 1) * ipp + ipp = pg * ipp" by (simp add: algebra_simps)
  then show ?thesis by (simp add: pagedGames_def Let_def slice_python)
qed

lemma page_le_totalPages:
  assumes "1 \<le> ipp"
  shows "pg \<le> totalPages ipp xs \<longleftrightarrow> (pg - 1) * ipp < int (length xs)"
proof -
  have p: "0 < real_of_int ipp" using assms by simp
  have "pg \<le> totalPages ipp xs
        \<longleftrightarrow> real_of_int pg - 1 < real (length xs) / real_of_int ipp"
    by (simp add: totalPages_def le_ceiling_iff)
  also have "\<dots> \<longleftrightarrow> (real_of_int pg - 1) * real_of_int ipp < real (length xs)"
    using p by (simp add: pos_less_divide_eq)
  also have "\<dots> \<longleftrightarrow> real_of_int ((pg - 1) * ipp) < real_of_int (int (length xs))"
    by simp
  also have "\<dots> \<longleftrightarrow> (pg - 1) * ipp < int (length xs)"
    by (simp only: of_int_less_iff)
  finally show ?thesis .
qed

lemma pagedGames_nonempty:
  assumes "1 \<le> ipp" and "1 \<le> pg"
  shows "pagedGames ipp xs pg \<noteq> [] \<longleftrightarrow> pg \<le> totalPages ipp xs"
proof -
  define s where "s = (pg - 1) * ipp"
  have s: "0 \<le> s" using assms by (simp add: s_def)
  have "pagedGames ipp xs pg = slice xs s (s + ipp)"
    by (simp add: pagedGames_def Let_def s_def)
  moreover have "slice xs s (s + ipp) \<noteq> [] \<longleftrightarrow> s < int (length xs)"
    using s assms(1) by (auto simp: slice_def Let_def min_def max_def)
  ultimately show ?thesis
    using page_le_totalPages [OF assms(1), of pg xs] by (simp add: s_def)
qed

lemma pages_of_23:
  assumes "length xs = 23"
  shows "totalPages itemsPerPage xs = 3 \<and> length (pagedGames itemsPerPage xs 3) = 3"
  using assms by (simp add: totalPages_def itemsPerPage_def pagedGames_def slice_def)

lemma slice_beyond: "int (length xs) \<le> a \<Longrightarrow> slice xs a b = []"
  by (auto simp: slice_def Let_def)

text \<open>
  The paginator by itself. The page shown is the slice
  \<open>items[(page-1)*pageSize : page*pageSize]\<close>; for a page size of at least one, a page from
  1 on is non-empty exactly up to the number of pages, the ceiling of the length over the
  page size; 23 items and a page size of 10 give 3 pages, the third of 3 items; and from
  a page inside \<open>[1, totalPages]\<close> the previous and next buttons lead to the clamp of the
  page before and of the page after.
\<close>

lemma pagination_slice_and_pages:
  "pagedGames ipp items pg = pythonSlice items ((pg - 1) * ipp) (pg * ipp)
   \<and> (1 \<le> ipp \<and> 1 \<le> pg \<longrightarrow>
        (pagedGames ipp items pg \<noteq> [] \<longleftrightarrow> pg \<le> totalPages ipp items))
   \<and> (length items = 23 \<longrightarrow>
        totalPages itemsPerPage items = 3 \<and> length (pagedGames itemsPerPage items 3) = 3)
   \<and> (1 \<le> p \<and> p \<le> tp \<longrightarrow>
        handlePrev p = clampPage tp (p - 1) \<and> handleNext tp p = clampPage tp (p + 1))"
proof -
  have 1: "pagedGames ipp items pg = pythonSlice items ((pg - 1) * ipp) (pg * ipp)"
    by (rule pagedGames_python)
  have 2: "1 \<le> ipp \<and> 1 \<le> pg \<longrightarrow>
        (pagedGames ipp items pg \<noteq> [] \<longleftrightarrow> pg \<le> totalPages ipp items)"
    using pagedGames_nonempty [of ipp pg items] by blast
  have 3: "length items = 23 \<longrightarrow>
        totalPages itemsPerPage items = 3 \<and> length (pagedGames itemsPerPage items 3) = 3"
    using pages_of_23 [of items] by blast
  have 4: "1 \<le> p \<and> p \<le> tp \<longrightarrow>
        handlePrev p = clampPage tp (p - 1) \<and> handleNext tp p = clampPage tp (p + 1)"
    by (auto simp: handlePrev_def handleNext_def clampPage_def)
  from 1 2 3 4 show ?thesis by blast
qed

section \<open>The local filter of GamesView\<close>

lemma includes_str_sublist: "includes_str s t \<longleftrightarrow> sublist t s"
  by (induction s) (auto simp: sublist_Cons_right)

lemma of_char_toLowerChar:
  "(of_char (toLowerChar c) :: nat) =
     (if upperCaseLetter c then of_char c + 32 else of_char c)"
proof -
  have "(of_char c :: nat) < 256" by simp
  then show ?thesis
    by (auto simp: toLowerChar_def upperCaseLetter_def Let_def)
qed

lemma toLowerChar_eq_iff: "toLowerChar c = toLowerChar d \<longleftrightarrow> sameIgnoringCase c d"
proof -
  have "toLowerChar c = toLowerChar d
        \<longleftrightarrow> (of_char (toLowerChar c) :: nat) = of_char (toLowerChar d)"
    by simp
  also have "\<dots> \<longleftrightarrow> sameIgnoringCase c d"
    unfolding of_char_toLowerChar sameIgnoringCase_def
    by (auto simp: upperCaseLetter_def Let_def)
  finally show ?thesis .
qed

lemma toLowerCase_eq_iff:
  "toLowerCase v = toLowerCase t \<longleftrightarrow> list_all2 sameIgnoringCase v t"
proof (induction v arbitrary: t)
  case Nil
  then show ?case by (simp add: toLowerCase_def)
next
  case (Cons c v)
  then show ?case
    by (cases t) (auto simp: toLowerCase_def toLowerChar_eq_iff)
qed

lemma containsIgnoringCase_iff:
  "containsIgnoringCase nm t \<longleftrightarrow> includes_str (toLowerCase nm) (toLowerCase t)"
proof
  assume "containsIgnoringCase nm t"
  then obtain u v w where nm: "nm = u @ v @ w" and v: "list_all2 sameIgnoringCase v t"
    by (auto simp: containsIgnoringCase_def)
  from v have "toLowerCase v = toLowerCase t" by (simp add: toLowerCase_eq_iff)
  with nm have "toLowerCase nm = toLowerCase u @ toLowerCase t @ toLowerCase w"
    by (simp add: toLowerCase_def)
  then show "includes_str (toLowerCase nm) (toLowerCase t)"
    unfolding includes_str_sublist sublist_def by blast
next
  assume "includes_str (toLowerCase nm) (toLowerCase t)"
  then obtain ps ss where "toLowerCase nm = ps @ toLowerCase t @ ss"
    unfolding includes_str_sublist sublist_def by blast
  then have "map toLowerChar nm = ps @ (map toLowerChar t @ ss)"
    by (simp add: toLowerCase_def)
  then obtain u r where 1: "nm = u @ r" and 2: "map toLowerChar t @ ss = map toLowerChar r"
    unfolding map_eq_append_conv by blast
  from 2 obtain v w where 3: "r = v @ w" and 4: "map toLowerChar t = map toLowerChar v"
    unfolding append_eq_map_conv by blast
  from 4 have "list_all2 sameIgnoringCase v t"
    by (simp add: toLowerCase_eq_iff [symmetric] toLowerCase_def)
  with 1 3 show "containsIgnoringCase nm t"
    by (auto simp: containsIgnoringCase_def)
qed

lemma filtered_empty_term: "filtered gs [] = gs"
proof -
  have "includes_str s []" for s :: string
    by (simp add: includes_str_sublist)
  then show ?thesis by (simp add: filtered_def toLowerCase_def)
qed

lemma lowerSimple_latin1:
  "n < 256 \<Longrightarrow>
   lowerSimple n = (if (65 \<le> n \<and> n \<le> 90) \<or> (192 \<le> n \<and> n \<le> 222 \<and> n \<noteq> 215) then n + 32 else n)"
  by (auto simp: lowerSimple_def)

lemma lowerSimple_of_char: "lowerSimple (of_char c) = of_char (toLowerChar c)"
proof -
  have "(of_char c :: nat) < 256" by simp
  from lowerSimple_latin1 [OF this] show ?thesis
    by (auto simp: toLowerChar_def Let_def)
qed

lemma lowerFrom_codePoints: "lowerFrom b (codePoints s) = codePoints (toLowerCase s)"
proof (induction s arbitrary: b)
  case Nil
  then show ?case by (simp add: codePoints_def toLowerCase_def)
next
  case (Cons c s)
  have "(of_char c :: nat) < 256" by simp
  then have "(of_char c :: nat) \<noteq> 931" by arith
  with Cons [of "of_char c # b"] show ?case
    by (simp add: codePoints_def toLowerCase_def lowerSimple_of_char)
qed

lemma sublist_map_inj:
  assumes "inj f"
  shows "sublist (map f t) (map f s) \<longleftrightarrow> sublist t s"
proof
  assume "sublist (map f t) (map f s)"
  then obtain ps ss where "map f s = ps @ map f t @ ss" by (auto simp: sublist_def)
  then obtain u r where 1: "s = u @ r" and 2: "map f t @ ss = map f r"
    unfolding map_eq_append_conv by blast
  from 2 obtain v w where 3: "r = v @ w" and 4: "map f t = map f v"
    unfolding append_eq_map_conv by blast
  from 4 assms have "t = v" by (simp add: inj_map_eq_map)
  with 1 3 show "sublist t s" by (auto simp: sublist_def)
next
  assume "sublist t s"
  then obtain ps ss where "s = ps @ t @ ss" by (auto simp: sublist_def)
  then have "map f s = map f ps @ map f t @ map f ss" by simp
  then show "sublist (map f t) (map f s)" unfolding sublist_def by blast
qed

lemma inj_of_char_nat: "inj (of_char :: char \<Rightarrow> nat)"
  by (simp add: inj_def)

lemma nameMatches_codePoints:
  "nameMatches (codePoints nm) (codePoints t) \<longleftrightarrow> includes_str (toLowerCase nm) (toLowerCase t)"
proof -
  have "nameMatches (codePoints nm) (codePoints t)
        \<longleftrightarrow> sublist (codePoints (toLowerCase t)) (codePoints (toLowerCase nm))"
    by (simp add: nameMatches_def toLowerCaseU_def lowerFrom_codePoints includes_str_sublist)
  also have "\<dots> \<longleftrightarrow> sublist (toLowerCase t) (toLowerCase nm)"
    unfolding codePoints_def by (rule sublist_map_inj [OF inj_of_char_nat])
  finally show ?thesis by (simp add: includes_str_sublist)
qed

lemma codePoints_char_of:
  "list_all (\<lambda>cp. cp < 256) u \<Longrightarrow> codePoints (map char_of u) = u"
  by (induction u) (simp_all add: codePoints_def)

text \<open>
  Claim C10, as stated: for every fetched list and every filter term, the filtered list
  consists exactly of the games whose name contains the term as a case-insensitive
  substring. Beyond Latin-1 the code does not do this, \<open>toLowerCase\<close> depending on the
  context: the name of the two letters capital alpha, capital sigma contains the term
  capital sigma as it stands, but the name is lowered to alpha, final sigma and the term
  to small sigma, so the filter drops the game.
\<close>

theorem final_sigma_counterexample:
  "list_all modelled [913, 931]
   \<and> sublist [931] [913, 931 :: nat]
   \<and> toLowerCaseU [913, 931] = [945, 962]
   \<and> toLowerCaseU [931] = [963]
   \<and> filteredNames [[913, 931]] [931] = []"
  by code_simp

text \<open>
  Claim C10, amended. For every fetched list of games whose names are Latin-1 strings
  and every Latin-1 filter term, the filtered list consists exactly of the games whose
  name contains the term as a case-insensitive substring, in the order of the fetched
  list; the empty term selects every game. (On such names the filter over code points
  and the filter of the component agree, and every list of code points below 256 is
  the list of code points of a Latin-1 string.)
\<close>

theorem filtered_latin1_case_insensitive:
  "filter (\<lambda>g. nameMatches (codePoints (name g)) (codePoints t)) gs
     = filter (\<lambda>g. containsIgnoringCase (name g) t) gs
   \<and> filtered gs t = filter (\<lambda>g. containsIgnoringCase (name g) t) gs
   \<and> subseq (filtered gs t) gs
   \<and> filtered gs [] = gs
   \<and> (list_all (\<lambda>cp. cp < 256) u \<longrightarrow> codePoints (map char_of u) = u)"
proof -
  have 1: "filter (\<lambda>g. nameMatches (codePoints (name g)) (codePoints t)) gs
     = filter (\<lambda>g. containsIgnoringCase (name g) t) gs"
    by (simp add: nameMatches_codePoints containsIgnoringCase_iff)
  have 2: "filtered gs t = filter (\<lambda>g. containsIgnoringCase (name g) t) gs"
    by (simp add: filtered_def containsIgnoringCase_iff)
  have 3: "subseq (filtered gs t) gs"
    by (simp add: filtered_def)
  have 4: "filtered gs [] = gs"
    by (rule filtered_empty_term)
  have 5: "list_all (\<lambda>cp. cp < 256) u \<longrightarrow> codePoints (map char_of u) = u"
    using codePoints_char_of [of u] by blast
  from 1 2 3 4 5 show ?thesis by blast
qed

theorem filtered_latin1_case_insensitive_witness:
  "filtered [gameA, gameB, gameC] ''mario'' = [gameB]
   \<and> filter (\<lambda>g. containsIgnoringCase (name g) ''mario'') [gameA, gameB, gameC] = [gameB]
   \<and> filter (\<lambda>g. nameMatches (codePoints (name g)) (codePoints ''mario''))
        [gameA, gameB, gameC] = [gameB]
   \<and> filtered [gameA, gameB, gameC] [] = [gameA, gameB, gameC]
   \<and> list_all (\<lambda>cp. cp < 256) [109, 97, 114, 105, 111 :: nat]
   \<and> codePoints (map char_of [109, 97, 114, 105, 111 :: nat]) = [109, 97, 114, 105, 111]"
proof -
  have v: "filtered [gameA, gameB, gameC] ''mario'' = [gameB]" by code_simp
  have h: "list_all (\<lambda>cp. cp < 256) [109, 97, 114, 105, 111 :: nat]" by simp
  from filtered_latin1_case_insensitive
         [of "''mario''" "[gameA, gameB, gameC]" "[109, 97, 114, 105, 111]"] v h
  show ?thesis by simp
qed

section \<open>The thumbnail cache\<close>

lemma thumbnailUrl_nonempty: "thumbnailUrl g s \<noteq> []"
  by (simp add: thumbnailUrl_def Let_def)

lemma cache_hit_after:
  "truthy (snd (getCachedThumbnailUrl g s \<sigma>) (thumbnailKey g s))"
  by (auto simp: getCachedThumbnailUrl_def Let_def truthy_def thumbnailUrl_nonempty
        split: option.splits)

lemma cache_entry_after:
  "snd (getCachedThumbnailUrl g s \<sigma>) (thumbnailKey g s)
     = Some (fst (getCachedThumbnailUrl g s \<sigma>))"
  by (auto simp: getCachedThumbnailUrl_def Let_def truthy_def split: option.splits)

lemma cache_second_call:
  "getCachedThumbnailUrl g s (snd (getCachedThumbnailUrl g s \<sigma>))
     = (fst (getCachedThumbnailUrl g s \<sigma>), snd (getCachedThumbnailUrl g s \<sigma>))"
  using cache_hit_after [of g s \<sigma>] cache_entry_after [of g s \<sigma>]
  by (simp add: getCachedThumbnailUrl_def [of g s "snd (getCachedThumbnailUrl g s \<sigma>)"] Let_def)

lemma cache_keeps:
  "truthy (\<sigma> k) \<Longrightarrow> snd (getCachedThumbnailUrl g s \<sigma>) k = \<sigma> k"
  by (auto simp: getCachedThumbnailUrl_def Let_def)

text \<open>
  Claim C9. Resolving a thumbnail URL is idempotent: for every game, system and storage,
  a second call returns the URL of the first; it finds the entry of its key in the
  storage (a cache hit: the test \<open>if (cached)\<close> succeeds), returns that entry and leaves
  the storage as it was. An entry that a call finds in the storage, under any key, is
  still there with the same value after the call, whatever game and system the call is
  for; entries written by these calls are URLs, never empty.
\<close>

theorem thumbnail_idempotent:
  "fst (getCachedThumbnailUrl g s (snd (getCachedThumbnailUrl g s \<sigma>)))
     = fst (getCachedThumbnailUrl g s \<sigma>)
   \<and> truthy (snd (getCachedThumbnailUrl g s \<sigma>) (thumbnailKey g s))
   \<and> snd (getCachedThumbnailUrl g s \<sigma>) (thumbnailKey g s)
       = Some (fst (getCachedThumbnailUrl g s \<sigma>))
   \<and> snd (getCachedThumbnailUrl g s (snd (getCachedThumbnailUrl g s \<sigma>)))
       = snd (getCachedThumbnailUrl g s \<sigma>)
   \<and> (truthy (\<sigma> k) \<longrightarrow> snd (getCachedThumbnailUrl g' s' \<sigma>) k = \<sigma> k)"
  using cache_hit_after [of g s \<sigma>] cache_entry_after [of g s \<sigma>]
    cache_keeps [of \<sigma> k g' s']
  by (simp add: cache_second_call)

theorem thumbnail_idempotent_witness:
  "fst (getCachedThumbnailUrl gameC systemGenesis Map.empty)
     = ''https://thumbnails.libretro.com/Sega%20-%20Mega%20Drive%20-%20Genesis/Named_Boxarts/Sonic%20_%20Knuckles.png''
   \<and> fst (getCachedThumbnailUrl gameC systemGenesis
            (snd (getCachedThumbnailUrl gameC systemGenesis Map.empty)))
       = fst (getCachedThumbnailUrl gameC systemGenesis Map.empty)
   \<and> truthy (snd (getCachedThumbnailUrl gameC systemGenesis Map.empty)
               (thumbnailKey gameC systemGenesis))
   \<and> snd (getCachedThumbnailUrl gameA systemNES
            (snd (getCachedThumbnailUrl gameC systemGenesis Map.empty)))
         (thumbnailKey gameC systemGenesis)
       = snd (getCachedThumbnailUrl gameC systemGenesis Map.empty)
           (thumbnailKey gameC systemGenesis)"
proof -
  have v: "fst (getCachedThumbnailUrl gameC systemGenesis Map.empty)
     = ''https://thumbnails.libretro.com/Sega%20-%20Mega%20Drive%20-%20Genesis/Named_Boxarts/Sonic%20_%20Knuckles.png''"
    by (simp add: getCachedThumbnailUrl_def thumbnailKey_def thumbnailUrl_def truthy_def
          gameC_def systemGenesis_def SYSTEMS_def encodeURIComponent_def encodeChar_def
          uriUnreserved_def percentByte_def hexDigit_def Let_def)
  note a = thumbnail_idempotent [of gameC systemGenesis Map.empty]
  from a have h: "truthy (snd (getCachedThumbnailUrl gameC systemGenesis Map.empty)
                      (thumbnailKey gameC systemGenesis))"
    by blast
  from thumbnail_idempotent [of gameC systemGenesis
         "snd (getCachedThumbnailUrl gameC systemGenesis Map.empty)"
         "thumbnailKey gameC systemGenesis" gameA systemNES] h
  have k: "snd (getCachedThumbnailUrl gameA systemNES
            (snd (getCachedThumbnailUrl gameC systemGenesis Map.empty)))
         (thumbnailKey gameC systemGenesis)
       = snd (getCachedThumbnailUrl gameC systemGenesis Map.empty)
           (thumbnailKey gameC systemGenesis)"
    by blast
  from v a h k show ?thesis by blast
qed

section \<open>The rate limiter\<close>

lemma attempt_no_refill:
  "now - lastReset L < 1000 \<Longrightarrow>
   attempt now L cs =
     (L\<lparr>tokens := tokens L - int (min (nat (tokens L)) (length cs))\<rparr>,
      map (\<lambda>c. \<lparr>caller = c, doneAt = now, window = lastReset L\<rparr>) (take (nat (tokens L)) cs),
      drop (nat (tokens L)) cs)"
proof (induction cs arbitrary: L)
  case Nil
  then show ?case by simp
next
  case (Cons c cs)
  show ?case
  proof (cases "0 < tokens L")
    case True
    then obtain k where k: "nat (tokens L) = Suc k" "nat (tokens L - 1) = k"
      by (cases "nat (tokens L)") auto
    with True Cons.prems Cons.IH [of "L\<lparr>tokens := tokens L - 1\<rparr>"] show ?thesis
      by (simp add: tryAcquire_def Let_def)
  next
    case False
    with Cons.prems Cons.IH [of L] show ?thesis
      by (simp add: tryAcquire_def Let_def)
  qed
qed

lemma attempt_refill:
  assumes "now - lastReset L \<ge> 1000" and "cs \<noteq> []"
  shows "attempt now L cs =
     (\<lparr>tokens = 3 - int (min 3 (length cs)), lastReset = now\<rparr>,
      map (\<lambda>c. \<lparr>caller = c, doneAt = now, window = now\<rparr>) (take 3 cs),
      drop 3 cs)"
proof (cases cs)
  case Nil
  with assms show ?thesis by simp
next
  case (Cons c cs')
  have t: "tryAcquire now L = (True, \<lparr>tokens = 2, lastReset = now\<rparr>)"
    using assms(1) by (simp add: tryAcquire_def Let_def)
  from attempt_no_refill [of now "\<lparr>tokens = 2, lastReset = now\<rparr>" cs'] Cons t
  show ?thesis
    by (simp add: numeral_3_eq_3 numeral_2_eq_2)
qed

text \<open>
  Claim C3. The token count always lies in \<open>[0, capacity]\<close> with capacity 3: it does at
  load time, and every run of \<open>tryAcquire\<close> keeps it there. Whenever the current time
  has reached \<open>lastReset\<close> plus one window of 1000 ms, the run of \<open>tryAcquire\<close> at that
  time refills the bucket to 3 before it takes its token (it succeeds, leaves 2 and
  starts the window anew); so after a window has elapsed exactly 3 tokens are available:
  of any calls made at that instant the first three complete at once and the others wait.
\<close>

theorem tokens_in_range_and_refill:
  "tokensInRange (initLimiter t)
   \<and> (tokensInRange L \<longrightarrow> tokensInRange (snd (tryAcquire now L)))
   \<and> (now - lastReset L \<ge> 1000 \<longrightarrow>
        tryAcquire now L = (True, \<lparr>tokens = 2, lastReset = now\<rparr>)
        \<and> attempt now L (c # cs)
            = (\<lparr>tokens = 3 - int (min 3 (length (c # cs))), lastReset = now\<rparr>,
               map (\<lambda>c. \<lparr>caller = c, doneAt = now, window = now\<rparr>) (take 3 (c # cs)),
               drop 3 (c # cs)))"
proof -
  have 1: "tokensInRange (initLimiter t)"
    by (simp add: tokensInRange_def initLimiter_def)
  have 2: "tokensInRange L \<longrightarrow> tokensInRange (snd (tryAcquire now L))"
    by (auto simp: tokensInRange_def tryAcquire_def Let_def)
  have 3: "now - lastReset L \<ge> 1000 \<longrightarrow>
        tryAcquire now L = (True, \<lparr>tokens = 2, lastReset = now\<rparr>)"
    by (simp add: tryAcquire_def Let_def)
  have 4: "now - lastReset L \<ge> 1000 \<longrightarrow>
        attempt now L (c # cs)
            = (\<lparr>tokens = 3 - int (min 3 (length (c # cs))), lastReset = now\<rparr>,
               map (\<lambda>c. \<lparr>caller = c, doneAt = now, window = now\<rparr>) (take 3 (c # cs)),
               drop 3 (c # cs))"
    using attempt_refill [of now L "c # cs"] by blast
  from 1 2 3 4 show ?thesis by blast
qed

theorem tokens_in_range_and_refill_witness:
  "tokensInRange (initLimiter 0)
   \<and> tokensInRange (snd (tryAcquire 400 (initLimiter 0)))
   \<and> 1000 \<le> 1700 - lastReset \<lparr>tokens = 0, lastReset = 400\<rparr>
   \<and> tryAcquire 1700 \<lparr>tokens = 0, lastReset = 400\<rparr> = (True, \<lparr>tokens = 2, lastReset = 1700\<rparr>)
   \<and> map caller (fst (snd (attempt 1700 \<lparr>tokens = 0, lastReset = 400\<rparr> [1, 2, 3, 4, 5 :: nat])))
       = [1, 2, 3]
   \<and> snd (snd (attempt 1700 \<lparr>tokens = 0, lastReset = 400\<rparr> [1, 2, 3, 4, 5 :: nat])) = [4, 5]"
proof -
  have h: "1000 \<le> 1700 - lastReset \<lparr>tokens = 0, lastReset = 400\<rparr>" by simp
  note a = tokens_in_range_and_refill [of 0 "initLimiter 0" 400 "1 :: nat" "[]"]
  note b = tokens_in_range_and_refill
             [of 0 "\<lparr>tokens = 0, lastReset = 400\<rparr>" 1700 "1 :: nat" "[2, 3, 4, 5]"]
  from a have 1: "tokensInRange (initLimiter 0)"
    by (rule conjunct1)
  from a 1 have 2: "tokensInRange (snd (tryAcquire 400 (initLimiter 0)))"
    by blast
  from b h have 3: "tryAcquire 1700 \<lparr>tokens = 0, lastReset = 400\<rparr>
                     = (True, \<lparr>tokens = 2, lastReset = 1700\<rparr>)"
    and 4: "attempt 1700 \<lparr>tokens = 0, lastReset = 400\<rparr> [1, 2, 3, 4, 5 :: nat]
            = (\<lparr>tokens = 3 - int (min 3 (length [1, 2, 3, 4, 5 :: nat])), lastReset = 1700\<rparr>,
               map (\<lambda>c. \<lparr>caller = c, doneAt = 1700, window = 1700\<rparr>) (take 3 [1, 2, 3, 4, 5]),
               drop 3 [1, 2, 3, 4, 5])"
    by (blast, blast)
  from 4 have 5: "map caller (fst (snd (attempt 1700 \<lparr>tokens = 0, lastReset = 400\<rparr>
                      [1, 2, 3, 4, 5 :: nat]))) = [1, 2, 3]"
    and 6: "snd (snd (attempt 1700 \<lparr>tokens = 0, lastReset = 400\<rparr> [1, 2, 3, 4, 5 :: nat])) = [4, 5]"
    by (simp_all add: numeral_3_eq_3)
  from h 1 2 3 5 6 show ?thesis by blast
qed









section \<open>The application state machine\<close>

lemma effects_keep [simp]:
  "indexReady (doGlobalSearch st) = indexReady st"
  "selectedSystem (doGlobalSearch st) = selectedSystem st"
  "view (doGlobalSearch st) = view st"
  "indexReady (fetchGames st) = indexReady st"
  "selectedSystem (fetchGames st) = selectedSystem st"
  "view (fetchGames st) = view st"
  "indexReady (generateIndex st) = indexReady st"
  "selectedSystem (generateIndex st) = selectedSystem st"
  "view (generateIndex st) = view st"
  by (simp_all add: doGlobalSearch_def fetchGames_def generateIndex_def throttledFetch_def
        split: option.splits)

lemma render_consistent: "viewConsistent (render st)"
  by (simp add: viewConsistent_def render_def gamesViewShown_def split: option.splits)

lemma render_keep [simp]:
  "indexReady (render st) = indexReady st"
  "selectedSystem (render st) = selectedSystem st"
  by (simp_all add: render_def split: option.splits)

lemma viewConsistent_cong:
  "indexReady st' = indexReady st \<Longrightarrow> selectedSystem st' = selectedSystem st \<Longrightarrow>
   (view st' = None) = (view st = None) \<Longrightarrow> viewConsistent st \<Longrightarrow> viewConsistent st'"
  by (simp add: viewConsistent_def gamesViewShown_def)

lemma setGlobalSearchTerm_keep [simp]:
  "indexReady (setGlobalSearchTerm v st) = indexReady st"
  "selectedSystem (setGlobalSearchTerm v st) = selectedSystem st"
  "view (setGlobalSearchTerm v st) = view st"
  by (simp_all add: setGlobalSearchTerm_def)

lemma fireTimer_keep [simp]:
  "indexReady (fireTimer t st) = indexReady st"
  "selectedSystem (fireTimer t st) = selectedSystem st"
  "view (fireTimer t st) = view st"
  by (simp_all add: fireTimer_def split: option.splits)

lemma fireViewTimer_keep [simp]:
  "indexReady (fireViewTimer t st) = indexReady st"
  "selectedSystem (fireViewTimer t st) = selectedSystem st"
  "(view (fireViewTimer t st) = None) = (view st = None)"
  by (auto simp: fireViewTimer_def split: option.splits)

lemma viewConsistent_mount: "viewConsistent (mountApp stored)"
  by (simp add: viewConsistent_def gamesViewShown_def mountApp_def Let_def debounceEffect_def)

lemma viewConsistent_step: "viewConsistent st \<Longrightarrow> viewConsistent (step e st)"
proof (cases e)
  case (SelectSystem s)
  assume "viewConsistent st"
  then show ?thesis using render_consistent [of "st\<lparr>selectedSystem := Some s\<rparr>"]
    by (simp add: SelectSystem step_def setSelectedSystem_def viewConsistent_def gamesViewShown_def)
next
  case Back
  assume "viewConsistent st"
  then show ?thesis using render_consistent [of "st\<lparr>selectedSystem := None\<rparr>"]
    by (simp add: Back step_def setSelectedSystem_def viewConsistent_def gamesViewShown_def)
next
  case (Settle i out)
  assume c: "viewConsistent st"
  define st1 where "st1 = st\<lparr>pending := take i (pending st) @ drop (Suc i) (pending st)\<rparr>"
  have c1: "viewConsistent st1" using c by (simp add: st1_def viewConsistent_def gamesViewShown_def)
  have "viewConsistent (settle (pending st ! i) out st1)"
    using c1 render_consistent [of "st1\<lparr>indexReady := True\<rparr>"]
    by (auto simp: settle_def setIndexReady_def viewConsistent_def gamesViewShown_def
          split: origin.splits outcome.splits)
  with c show ?thesis by (simp add: Settle step_def st1_def)
next
  case (Elapse d)
  assume c: "viewConsistent st"
  show ?thesis
    by (rule viewConsistent_cong [OF _ _ _ c]) (simp_all add: Elapse step_def elapse_def Let_def)
qed (auto simp: step_def viewConsistent_def gamesViewShown_def setGlobalSearchInput_def
       debounceEffect_def setMisterIp_def split: option.splits)

lemma viewConsistent_run: "viewConsistent st \<Longrightarrow> viewConsistent (run es st)"
  by (induction es arbitrary: st) (simp_all add: viewConsistent_step)


lemma step_select:
  assumes "enabled (SelectSystem s) st" and "viewConsistent st"
  shows "step (SelectSystem s) st =
     st\<lparr>selectedSystem := Some s, view := Some (mountGamesView (clock st)),
        loadingGames := True, error := None,
        pending := pending st @ [\<lparr>origin = FetchGames,
            call = SearchCall (getApiUrl st @ ''/api/games/search'') [] (sys_id s)\<rparr>],
        calls := calls st @ [(clock st, SearchCall (getApiUrl st @ ''/api/games/search'') [] (sys_id s))]\<rparr>"
proof -
  from assms have v: "view st = None" and i: "indexReady st" and n: "selectedSystem st = None"
    by (auto simp: viewConsistent_def gamesViewShown_def)
  show ?thesis using assms(1) v i n
    by (simp add: step_def setSelectedSystem_def render_def gamesViewShown_def doGlobalSearch_def
          fetchGames_def throttledFetch_def getApiUrl_def)
qed

lemma step_back:
  assumes "enabled Back st"
  shows "scope (step Back st) = Global" "games (step Back st) = []" "view (step Back st) = None"
    "globalSearchInput (step Back st) = globalSearchInput st"
    "globalSearchTerm (step Back st) = globalSearchTerm st"
  using assms
  by (auto simp: step_def setSelectedSystem_def render_def gamesViewShown_def doGlobalSearch_def
        fetchGames_def throttledFetch_def scope_def)

lemma filter_step:
  assumes "filterEvent e" and "selectedSystem st \<noteq> None"
  shows "calls (step e st) = calls st \<and> games (step e st) = games st
       \<and> selectedSystem (step e st) = selectedSystem st"
proof (cases e)
  case (Elapse d)
  have f: "\<And>t s. selectedSystem s \<noteq> None \<Longrightarrow>
      calls (fireTimer t s) = calls s \<and> games (fireTimer t s) = games s"
    by (auto simp: fireTimer_def setGlobalSearchTerm_def doGlobalSearch_def split: option.splits)
  have g: "\<And>t s. calls (fireViewTimer t s) = calls s \<and> games (fireViewTimer t s) = games s"
    by (auto simp: fireViewTimer_def split: option.splits)
  from assms(2) f g show ?thesis
    by (simp add: Elapse step_def elapse_def Let_def)
qed (use assms in \<open>auto simp: filterEvent_def step_def split: option.splits\<close>)

lemma filter_run:
  "list_all filterEvent es \<Longrightarrow> selectedSystem st \<noteq> None \<Longrightarrow>
   calls (run es st) = calls st \<and> games (run es st) = games st"
proof (induction es arbitrary: st)
  case Nil
  then show ?case by simp
next
  case (Cons e es)
  from Cons.prems filter_step [of e st] Cons.IH [of "step e st"] show ?case by simp
qed

lemma type_step:
  assumes "indexReady st" and "selectedSystem st = None" and "v \<noteq> globalSearchInput st"
  shows "step (TypeGlobal v) st = st\<lparr>globalSearchInput := v, timer := Some (clock st + 500, v)\<rparr>"
  using assms by (simp add: step_def setGlobalSearchInput_def debounceEffect_def)

lemma quiet_step:
  assumes "timer st = Some (dl, v)" and "clock st + d < dl" and "view st = None"
  shows "step (Elapse d) st = st\<lparr>clock := clock st + d\<rparr>"
  using assms
  by (simp add: step_def elapse_def Let_def viewTimerFirst_def fireTimer_def fireViewTimer_def)

lemma commit_step:
  assumes "timer st = Some (dl, v)" and "dl \<le> clock st + d" and "view st = None"
  shows "step (Elapse d) st =
     (setGlobalSearchTerm v
        (st\<lparr>timer := None, clock := dl, commits := commits st @ [(dl, v)]\<rparr>))\<lparr>clock := clock st + d\<rparr>"
  using assms
  by (simp add: step_def elapse_def Let_def viewTimerFirst_def fireTimer_def fireViewTimer_def)

lemma setGlobalSearchTerm_fields [simp]:
  "commits (setGlobalSearchTerm v st) = commits st"
  "globalSearchTerm (setGlobalSearchTerm v st) = v"
  "globalSearchInput (setGlobalSearchTerm v st) = globalSearchInput st"
  "timer (setGlobalSearchTerm v st) = timer st"
  by (auto simp: setGlobalSearchTerm_def doGlobalSearch_def throttledFetch_def)


lemma commit_search:
  assumes "indexReady st" and "selectedSystem st = None" and "v \<noteq> globalSearchTerm st"
    and "trim v \<noteq> []"
  shows "calls (setGlobalSearchTerm v st)
           = calls st @ [(clock st, SearchCall (getApiUrl st @ ''/api/games/search'') (trim v) [])]"
  using assms
  by (simp add: setGlobalSearchTerm_def doGlobalSearch_def throttledFetch_def getApiUrl_def)

lemma four_keystrokes:
  assumes "indexReady st" and "selectedSystem st = None" and "view st = None"
    and "v1 \<noteq> globalSearchInput st" and "v2 \<noteq> v1" and "v3 \<noteq> v2" and "v4 \<noteq> v3"
    and "500 \<le> d"
  shows "commits (run [TypeGlobal v1, Elapse 100, TypeGlobal v2, Elapse 100, TypeGlobal v3,
                       Elapse 100, TypeGlobal v4, Elapse d] st)
           = commits st @ [(clock st + 800, v4)]
       \<and> globalSearchTerm (run [TypeGlobal v1, Elapse 100, TypeGlobal v2, Elapse 100,
                       TypeGlobal v3, Elapse 100, TypeGlobal v4, Elapse d] st) = v4"
proof -
  define s1 where "s1 = st\<lparr>globalSearchInput := v1, timer := Some (clock st + 500, v1)\<rparr>"
  define s2 where "s2 = s1\<lparr>clock := clock st + 100\<rparr>"
  define s3 where "s3 = s2\<lparr>globalSearchInput := v2, timer := Some (clock st + 600, v2)\<rparr>"
  define s4 where "s4 = s3\<lparr>clock := clock st + 200\<rparr>"
  define s5 where "s5 = s4\<lparr>globalSearchInput := v3, timer := Some (clock st + 700, v3)\<rparr>"
  define s6 where "s6 = s5\<lparr>clock := clock st + 300\<rparr>"
  define s7 where "s7 = s6\<lparr>globalSearchInput := v4, timer := Some (clock st + 800, v4)\<rparr>"
  note defs = s1_def s2_def s3_def s4_def s5_def s6_def s7_def
  have 1: "step (TypeGlobal v1) st = s1"
    using assms by (simp add: type_step s1_def)
  have 2: "step (Elapse 100) s1 = s2"
    using assms by (simp add: quiet_step [where dl = "clock st + 500" and v = v1] defs)
  have 3: "step (TypeGlobal v2) s2 = s3"
    using assms by (simp add: type_step defs)
  have 4: "step (Elapse 100) s3 = s4"
    using assms by (simp add: quiet_step [where dl = "clock st + 600" and v = v2] defs)
  have 5: "step (TypeGlobal v3) s4 = s5"
    using assms by (simp add: type_step defs)
  have 6: "step (Elapse 100) s5 = s6"
    using assms by (simp add: quiet_step [where dl = "clock st + 700" and v = v3] defs)
  have 7: "step (TypeGlobal v4) s6 = s7"
    using assms by (simp add: type_step defs)
  have 8: "step (Elapse d) s7 =
      (setGlobalSearchTerm v4
        (s7\<lparr>timer := None, clock := clock st + 800,
            commits := commits s7 @ [(clock st + 800, v4)]\<rparr>))\<lparr>clock := clock s7 + d\<rparr>"
    using assms by (intro commit_step) (simp_all add: defs)
  have c: "commits s7 = commits st"
    by (simp add: defs)
  show ?thesis by (simp add: 1 2 3 4 5 6 7 8 c)
qed

lemma zelda_zeld:
  assumes "indexReady st" and "selectedSystem st = None" and "view st = None"
    and "globalSearchInput st \<noteq> ''zelda''" and "globalSearchTerm st \<noteq> ''zeld''"
    and "g < 500" and "500 \<le> d"
  shows "calls (run [TypeGlobal ''zelda'', Elapse g, TypeGlobal ''zeld'', Elapse d] st)
           = calls st @ [(clock st + g + 500,
                          SearchCall (getApiUrl st @ ''/api/games/search'') ''zeld'' [])]
       \<and> commits (run [TypeGlobal ''zelda'', Elapse g, TypeGlobal ''zeld'', Elapse d] st)
           = commits st @ [(clock st + g + 500, ''zeld'')]"
proof -
  define s1 where
    "s1 = st\<lparr>globalSearchInput := ''zelda'', timer := Some (clock st + 500, ''zelda'')\<rparr>"
  define s2 where "s2 = s1\<lparr>clock := clock st + g\<rparr>"
  define s3 where
    "s3 = s2\<lparr>globalSearchInput := ''zeld'', timer := Some (clock st + g + 500, ''zeld'')\<rparr>"
  define s4 where
    "s4 = s3\<lparr>timer := None, clock := clock st + g + 500,
             commits := commits st @ [(clock st + g + 500, ''zeld'')]\<rparr>"
  note defs = s1_def s2_def s3_def s4_def
  have t: "trim ''zeld'' = ''zeld''"
    by (simp add: trim_def isWhiteSpace_def)
  have 1: "step (TypeGlobal ''zelda'') st = s1"
    using assms by (simp add: type_step s1_def)
  have 2: "step (Elapse g) s1 = s2"
    using assms by (simp add: quiet_step [where dl = "clock st + 500" and v = "''zelda''"] defs)
  have 3: "step (TypeGlobal ''zeld'') s2 = s3"
    using assms by (simp add: type_step defs)
  have 4: "step (Elapse d) s3 = (setGlobalSearchTerm ''zeld'' s4)\<lparr>clock := clock s3 + d\<rparr>"
    using assms
    by (simp add: commit_step [where dl = "clock st + g + 500" and v = "''zeld''"] defs)
  have 5: "calls (setGlobalSearchTerm ''zeld'' s4)
       = calls s4 @ [(clock s4, SearchCall (getApiUrl s4 @ ''/api/games/search'') (trim ''zeld'') [])]"
    using assms by (intro commit_search) (simp_all add: defs t)
  have 6: "calls s4 = calls st" "clock s4 = clock st + g + 500" "getApiUrl s4 = getApiUrl st"
    "commits s4 = commits st @ [(clock st + g + 500, ''zeld'')]"
    by (simp_all add: defs getApiUrl_def)
  show ?thesis by (simp add: 1 2 3 4 5 6 t)
qed

lemma view_none: "viewConsistent st \<Longrightarrow> selectedSystem st = None \<Longrightarrow> view st = None"
  by (simp add: viewConsistent_def gamesViewShown_def)

text \<open>
  Claim C4. With the global search box shown, keystrokes that change the input at
  0, 100, 200 and 300 ms followed by at least 500 ms of silence cause exactly one run of
  the debounce callback, 800 ms after the first keystroke, and it carries the final
  input. Typing \<open>zelda\<close> and then, less than 500 ms later, \<open>zeld\<close> causes exactly one
  search call, for \<open>zeld\<close>, issued 500 ms after the second input, and none for \<open>zelda\<close>.
\<close>

theorem debounce_single_update:
  assumes "indexReady st" and "selectedSystem st = None" and "viewConsistent st"
    and "500 \<le> d"
  shows "(v1 \<noteq> globalSearchInput st \<and> v2 \<noteq> v1 \<and> v3 \<noteq> v2 \<and> v4 \<noteq> v3 \<longrightarrow>
          commits (run [TypeGlobal v1, Elapse 100, TypeGlobal v2, Elapse 100, TypeGlobal v3,
                        Elapse 100, TypeGlobal v4, Elapse d] st)
            = commits st @ [(clock st + 800, v4)]
          \<and> globalSearchTerm (run [TypeGlobal v1, Elapse 100, TypeGlobal v2, Elapse 100,
                        TypeGlobal v3, Elapse 100, TypeGlobal v4, Elapse d] st) = v4)
       \<and> (globalSearchInput st \<noteq> ''zelda'' \<and> globalSearchTerm st \<noteq> ''zeld'' \<and> g < 500 \<longrightarrow>
          calls (run [TypeGlobal ''zelda'', Elapse g, TypeGlobal ''zeld'', Elapse d] st)
            = calls st @ [(clock st + g + 500,
                           SearchCall (getApiUrl st @ ''/api/games/search'') ''zeld'' [])]
          \<and> commits (run [TypeGlobal ''zelda'', Elapse g, TypeGlobal ''zeld'', Elapse d] st)
            = commits st @ [(clock st + g + 500, ''zeld'')])"
  using four_keystrokes [OF assms(1,2) view_none [OF assms(3,2)] _ _ _ _ assms(4), of v1 v2 v3 v4]
    zelda_zeld [OF assms(1,2) view_none [OF assms(3,2)] _ _ _ assms(4), of g]
  by blast

theorem debounce_single_update_witness:
  "indexReady readyApp \<and> selectedSystem readyApp = None \<and> viewConsistent readyApp
   \<and> commits (run [TypeGlobal ''z'', Elapse 100, TypeGlobal ''ze'', Elapse 100,
                   TypeGlobal ''zel'', Elapse 100, TypeGlobal ''zeld'', Elapse 500] readyApp)
       = [(800, ''zeld'')]
   \<and> map snd (calls (run [TypeGlobal ''zelda'', Elapse 100, TypeGlobal ''zeld'', Elapse 500]
                        readyApp))
       = [IndexCall ''http://mister.local:8182/api/games/index'',
          SearchCall ''http://mister.local:8182/api/games/search'' ''zeld'' []]"
proof -
  have h: "indexReady readyApp" "selectedSystem readyApp = None" "viewConsistent readyApp"
    by code_simp+
  have i: "globalSearchInput readyApp = []" "globalSearchTerm readyApp = []"
    "commits readyApp = []" "clock readyApp = 0"
    "calls readyApp = [(0, IndexCall ''http://mister.local:8182/api/games/index'')]"
    "getApiUrl readyApp = ''http://mister.local:8182''"
    by code_simp+
  from debounce_single_update [OF h, of 500 "''z''" "''ze''" "''zel''" "''zeld''" 100]
  show ?thesis by (simp add: h i)
qed


text \<open>
  Claim C1, as stated: when the device address is changed while a search request is
  pending, the response to that request is discarded when it arrives. The code has no
  such check: in the state \<open>addressChanged\<close> the address is \<open>10.0.0.2\<close>, the first pending
  request is the global search for \<open>zelda\<close> that was sent to \<open>mister.local\<close>, no result
  is displayed, and when that request is answered its data become the displayed results.
\<close>

theorem stale_response_applied:
  "misterIp addressChanged = ''10.0.0.2''
   \<and> pending addressChanged ! 0
       = \<lparr>origin = DoGlobalSearch,
          call = SearchCall ''http://mister.local:8182/api/games/search'' ''zelda'' []\<rparr>
   \<and> globalResults addressChanged = []
   \<and> globalResults (step (Settle 0 (RespOk [gameA])) addressChanged) = [gameA]"
  by code_simp

lemma save_keeps_pending:
  assumes "i < length (pending st)"
  shows "i < length (pending (step SaveSettings st))
       \<and> pending (step SaveSettings st) ! i = pending st ! i"
  using assms
  by (auto simp: step_def setMisterIp_def generateIndex_def doGlobalSearch_def fetchGames_def
        throttledFetch_def nth_append split: option.splits)

text \<open>
  Claim C1, amended. A request that is pending when the device address is saved in the
  settings stays pending, and a successful response to a pending search is applied when
  it arrives, whatever the device address is by then: the data of a global search replace
  the global results, the data of a system search replace the list of games; the
  continuation does not look at the address the request was issued for.
\<close>

theorem response_applied_on_arrival:
  assumes "i < length (pending st)"
  shows "(origin (pending st ! i) = DoGlobalSearch \<longrightarrow>
            globalResults (step (Settle i (RespOk d)) st) = d)
       \<and> (origin (pending st ! i) = FetchGames \<longrightarrow>
            games (step (Settle i (RespOk d)) st) = d)
       \<and> i < length (pending (step SaveSettings st))
       \<and> pending (step SaveSettings st) ! i = pending st ! i"
  using assms save_keeps_pending [OF assms] by (simp add: step_def settle_def)

theorem response_applied_on_arrival_witness:
  "0 < length (pending addressChanged)
   \<and> origin (pending addressChanged ! 0) = DoGlobalSearch
   \<and> call (pending addressChanged ! 0)
       = SearchCall ''http://mister.local:8182/api/games/search'' ''zelda'' []
   \<and> getApiUrl addressChanged = ''http://10.0.0.2:8182''
   \<and> globalResults (step (Settle 0 (RespOk [gameA])) addressChanged) = [gameA]
   \<and> pending (step SaveSettings addressChanged) ! 0 = pending addressChanged ! 0"
proof -
  have 1: "0 < length (pending addressChanged)" by code_simp
  have 2: "origin (pending addressChanged ! 0) = DoGlobalSearch" by code_simp
  have 3: "call (pending addressChanged ! 0)
       = SearchCall ''http://mister.local:8182/api/games/search'' ''zelda'' []"
    by code_simp
  have 4: "getApiUrl addressChanged = ''http://10.0.0.2:8182''" by code_simp
  from response_applied_on_arrival [OF 1, of "[gameA]"] 1 2 3 4 show ?thesis by blast
qed

text \<open>
  Claim C5, as stated: selecting a system clears any pending global query state. The
  code keeps it: after \<open>zelda\<close> is typed and a system is selected before the debounce has
  run (the selection being possible, the system tiles still shown), the scope is that
  system, yet the global input still holds \<open>zelda\<close> and its timeout is still pending;
  400 ms later the timeout commits the query, and the back button then issues a global
  search for \<open>zelda\<close>.
\<close>

theorem select_keeps_global_query:
  "enabled (SelectSystem systemNES) (run [TypeGlobal ''zelda'', Elapse 100] readyApp)
   \<and> scope systemEntered = System systemNES
   \<and> globalSearchInput systemEntered = ''zelda''
   \<and> timer systemEntered = Some (500, ''zelda'')
   \<and> map snd (calls (run [Elapse 400, Back] systemEntered))
       = map snd (calls systemEntered)
           @ [SearchCall ''http://mister.local:8182/api/games/search'' ''zelda'' []]"
  by code_simp

text \<open>
  Claim C5, amended. Exactly one search scope is active at any time: the global one
  exactly when no system is selected. Selecting a system enters the scope of that system
  and mounts its view with an empty filter and page 1; it is possible only while the
  effective global query trims to the empty string, and it leaves the global input, the
  effective global query, the pending debounce timeout and the global results as they
  were. Deselecting the system (back) clears the loaded per-system list, drops the view
  and returns the scope to global, the global input and effective query being what they
  were.
\<close>

theorem scope_switch:
  assumes "viewConsistent st"
  shows "(scope st = Global) \<noteq> (\<exists>s. scope st = System s)
   \<and> (enabled (SelectSystem s) st \<longrightarrow>
        trim (globalSearchTerm st) = []
        \<and> scope (step (SelectSystem s) st) = System s
        \<and> view (step (SelectSystem s) st) = Some (mountGamesView (clock st))
        \<and> searchInput (mountGamesView (clock st)) = []
        \<and> searchTerm (mountGamesView (clock st)) = []
        \<and> page (mountGamesView (clock st)) = 1
        \<and> globalSearchInput (step (SelectSystem s) st) = globalSearchInput st
        \<and> globalSearchTerm (step (SelectSystem s) st) = globalSearchTerm st
        \<and> timer (step (SelectSystem s) st) = timer st
        \<and> globalResults (step (SelectSystem s) st) = globalResults st)
   \<and> (enabled Back st \<longrightarrow>
        scope (step Back st) = Global
        \<and> games (step Back st) = []
        \<and> view (step Back st) = None
        \<and> globalSearchInput (step Back st) = globalSearchInput st
        \<and> globalSearchTerm (step Back st) = globalSearchTerm st)"
proof -
  have 1: "(scope st = Global) \<noteq> (\<exists>s. scope st = System s)"
    by (simp add: scope_def split: option.splits)
  have 2: "enabled (SelectSystem s) st \<longrightarrow>
        trim (globalSearchTerm st) = []
        \<and> scope (step (SelectSystem s) st) = System s
        \<and> view (step (SelectSystem s) st) = Some (mountGamesView (clock st))
        \<and> searchInput (mountGamesView (clock st)) = []
        \<and> searchTerm (mountGamesView (clock st)) = []
        \<and> page (mountGamesView (clock st)) = 1
        \<and> globalSearchInput (step (SelectSystem s) st) = globalSearchInput st
        \<and> globalSearchTerm (step (SelectSystem s) st) = globalSearchTerm st
        \<and> timer (step (SelectSystem s) st) = timer st
        \<and> globalResults (step (SelectSystem s) st) = globalResults st"
    using step_select [OF _ assms, of s] by (simp add: scope_def mountGamesView_def)
  from 1 2 step_back [of st] show ?thesis by blast
qed

theorem scope_switch_witness:
  "viewConsistent readyApp \<and> enabled (SelectSystem systemNES) readyApp
   \<and> scope (step (SelectSystem systemNES) readyApp) = System systemNES
   \<and> view (step (SelectSystem systemNES) readyApp) = Some (mountGamesView (clock readyApp))
   \<and> viewConsistent systemEntered \<and> enabled Back systemEntered
   \<and> scope (step Back systemEntered) = Global
   \<and> games (step Back systemEntered) = []
   \<and> globalSearchInput (step Back systemEntered) = globalSearchInput systemEntered"
proof -
  have 1: "viewConsistent readyApp" by code_simp
  have 2: "enabled (SelectSystem systemNES) readyApp" by code_simp
  have 3: "viewConsistent systemEntered" by code_simp
  have 4: "enabled Back systemEntered" by code_simp
  from scope_switch [OF 1, of systemNES] scope_switch [OF 3, of systemNES] 1 2 3 4
  show ?thesis by blast
qed

subsection \<open>The list of a system and its filter\<close>

lemma settle_fetch:
  assumes "i < length (pending st)" and "origin (pending st ! i) = FetchGames"
  shows "step (Settle i (RespOk d)) st =
     st\<lparr>pending := take i (pending st) @ drop (Suc i) (pending st), games := d,
        loadingGames := False\<rparr>"
  using assms by (simp add: step_def settle_def)

lemma type_filter_step:
  assumes "gamesViewShown st" and "view st = Some gv" and "v \<noteq> searchInput gv"
  shows "step (TypeFilter v) st =
     st\<lparr>view := Some (gv\<lparr>searchInput := v, viewTimer := Some (clock st + 500, v)\<rparr>)\<rparr>"
  using assms by (simp add: step_def setSearchInput_def)

lemma fireTimer_games [simp]: "games (fireTimer t st) = games st"
  by (auto simp: fireTimer_def setGlobalSearchTerm_def doGlobalSearch_def throttledFetch_def
        split: option.splits)

lemma fireViewTimer_games [simp]: "games (fireViewTimer t st) = games st"
  by (auto simp: fireViewTimer_def split: option.splits)

lemma fireViewTimer_due:
  assumes "view st = Some gv" and "viewTimer gv = Some (dl, v)" and "dl \<le> t"
  shows "view (fireViewTimer t st) = Some (setSearchTerm v (gv\<lparr>viewTimer := None\<rparr>))"
  using assms by (simp add: fireViewTimer_def)

lemma elapse_view:
  assumes "view st = Some gv" and "viewTimer gv = Some (dl, v)" and "dl \<le> clock st + w"
  shows "view (step (Elapse w) st) = Some (setSearchTerm v (gv\<lparr>viewTimer := None\<rparr>))
       \<and> games (step (Elapse w) st) = games st"
proof -
  have 1: "view (fireViewTimer (clock st + w) st)
             = Some (setSearchTerm v (gv\<lparr>viewTimer := None\<rparr>))"
    by (rule fireViewTimer_due [OF assms])
  have "view (fireTimer (clock st + w) st) = Some gv" using assms(1) by simp
  then have 2: "view (fireViewTimer (clock st + w) (fireTimer (clock st + w) st))
             = Some (setSearchTerm v (gv\<lparr>viewTimer := None\<rparr>))"
    by (rule fireViewTimer_due [OF _ assms(2,3)])
  from 1 2 show ?thesis
    by (simp add: step_def elapse_def Let_def)
qed

lemma filter_then_wait:
  assumes "gamesViewShown st" and "view st = Some gv" and "v \<noteq> searchInput gv"
    and "500 \<le> w"
  shows "shownGames (run [TypeFilter v, Elapse w] st)
           = pagedGames itemsPerPage (filtered (games st) v)
               (if v = searchTerm gv then page gv else 1)"
proof -
  define gv1 where "gv1 = gv\<lparr>searchInput := v, viewTimer := Some (clock st + 500, v)\<rparr>"
  define st1 where "st1 = st\<lparr>view := Some gv1\<rparr>"
  have 1: "step (TypeFilter v) st = st1"
    using type_filter_step [OF assms(1,2,3)] by (simp add: st1_def gv1_def)
  have 2: "view (step (Elapse w) st1) = Some (setSearchTerm v (gv1\<lparr>viewTimer := None\<rparr>))
         \<and> games (step (Elapse w) st1) = games st1"
    using assms(4) by (intro elapse_view [where dl = "clock st + 500"]) (simp_all add: st1_def gv1_def)
  show ?thesis
    using 2 by (simp add: 1 shownGames_def setSearchTerm_def st1_def gv1_def)
qed

text \<open>
  Claim C8. Selecting a system issues, at the instant of the selection (no debounce),
  exactly one call through \<open>throttledFetch\<close>: a search with the body
  \<open>{query: "", system: s.id}\<close>, whose answer becomes the list of the system without a
  further call. From then on, in any state with a system selected, whatever is done in
  the filter of the system view (typing into the filter box, the passing of time that
  lets its debounce run, the pager buttons) issues no call and leaves the fetched list
  as it is; and a term typed into the filter box and left for 500 ms or more makes the
  view show a page of the games of that very list whose names match the term (the
  first page, the term being new).
\<close>

theorem select_one_call:
  assumes "enabled (SelectSystem s) st" and "viewConsistent st"
  shows "calls (step (SelectSystem s) st)
           = calls st @ [(clock st,
                          SearchCall (getApiUrl st @ ''/api/games/search'') [] (sys_id s))]
       \<and> pending (step (SelectSystem s) st)
           = pending st @ [\<lparr>origin = FetchGames,
                call = SearchCall (getApiUrl st @ ''/api/games/search'') [] (sys_id s)\<rparr>]
       \<and> games (step (Settle (length (pending st)) (RespOk d)) (step (SelectSystem s) st)) = d
       \<and> calls (step (Settle (length (pending st)) (RespOk d)) (step (SelectSystem s) st))
           = calls (step (SelectSystem s) st)
       \<and> (selectedSystem st2 \<noteq> None \<and> list_all filterEvent es \<longrightarrow>
            calls (run es st2) = calls st2 \<and> games (run es st2) = games st2)
       \<and> (gamesViewShown st2 \<and> view st2 = Some gv \<and> v \<noteq> searchInput gv \<and> 500 \<le> w \<longrightarrow>
            shownGames (run [TypeFilter v, Elapse w] st2)
              = pagedGames itemsPerPage (filtered (games st2) v)
                  (if v = searchTerm gv then page gv else 1))"
proof -
  note e = step_select [OF assms]
  have i: "length (pending st) < length (pending (step (SelectSystem s) st))"
    and o: "origin (pending (step (SelectSystem s) st) ! length (pending st)) = FetchGames"
    by (simp_all add: e)
  note f = settle_fetch [OF i o, of d]
  have 1: "calls (step (SelectSystem s) st)
           = calls st @ [(clock st,
                          SearchCall (getApiUrl st @ ''/api/games/search'') [] (sys_id s))]"
    and 2: "pending (step (SelectSystem s) st)
           = pending st @ [\<lparr>origin = FetchGames,
                call = SearchCall (getApiUrl st @ ''/api/games/search'') [] (sys_id s)\<rparr>]"
    by (simp_all add: e)
  have 3: "games (step (Settle (length (pending st)) (RespOk d)) (step (SelectSystem s) st)) = d"
    and 4: "calls (step (Settle (length (pending st)) (RespOk d)) (step (SelectSystem s) st))
           = calls (step (SelectSystem s) st)"
    by (simp_all add: f)
  have 5: "selectedSystem st2 \<noteq> None \<and> list_all filterEvent es \<longrightarrow>
            calls (run es st2) = calls st2 \<and> games (run es st2) = games st2"
    using filter_run [of es st2] by blast
  have 6: "gamesViewShown st2 \<and> view st2 = Some gv \<and> v \<noteq> searchInput gv \<and> 500 \<le> w \<longrightarrow>
            shownGames (run [TypeFilter v, Elapse w] st2)
              = pagedGames itemsPerPage (filtered (games st2) v)
                  (if v = searchTerm gv then page gv else 1)"
    using filter_then_wait [of st2 gv v w] by blast
  from 1 2 3 4 5 6 show ?thesis by blast
qed

theorem select_one_call_witness:
  "enabled (SelectSystem systemNES) readyApp \<and> viewConsistent readyApp
   \<and> calls (step (SelectSystem systemNES) readyApp)
       = calls readyApp
           @ [(0, SearchCall ''http://mister.local:8182/api/games/search'' [] ''NES'')]
   \<and> games (step (Settle 0 (RespOk [gameA, gameB, gameD]))
              (step (SelectSystem systemNES) readyApp)) = [gameA, gameB, gameD]
   \<and> selectedSystem fetchedNES \<noteq> None
   \<and> list_all filterEvent [TypeFilter ''mar'', Elapse 200, TypeFilter ''mario'', Elapse 500]
   \<and> calls (run [TypeFilter ''mar'', Elapse 200, TypeFilter ''mario'', Elapse 500] fetchedNES)
       = calls fetchedNES
   \<and> games (run [TypeFilter ''mar'', Elapse 200, TypeFilter ''mario'', Elapse 500] fetchedNES)
       = [gameA, gameB, gameD]
   \<and> gamesViewShown fetchedNES \<and> view fetchedNES = Some (mountGamesView 0)
   \<and> ''mario'' \<noteq> searchInput (mountGamesView 0) \<and> (500 :: nat) \<le> 500
   \<and> shownGames (run [TypeFilter ''mario'', Elapse 500] fetchedNES) = [gameB, gameD]"
proof -
  have 1: "enabled (SelectSystem systemNES) readyApp" by code_simp
  have 2: "viewConsistent readyApp" by code_simp
  have 3: "list_all filterEvent
             [TypeFilter ''mar'', Elapse 200, TypeFilter ''mario'', Elapse 500]"
    by (simp add: filterEvent_def)
  have 4: "clock readyApp = 0" "getApiUrl readyApp = ''http://mister.local:8182''"
    "sys_id systemNES = ''NES''" "pending readyApp = []"
    by code_simp+
  have 5: "gamesViewShown fetchedNES" "view fetchedNES = Some (mountGamesView 0)"
    "games fetchedNES = [gameA, gameB, gameD]" "selectedSystem fetchedNES \<noteq> None"
    by code_simp+
  have 6: "pagedGames itemsPerPage (filtered [gameA, gameB, gameD] ''mario'') 1
             = [gameB, gameD]"
    by code_simp
  have 7: "searchInput (mountGamesView 0) = []" "searchTerm (mountGamesView 0) = []"
    by (simp_all add: mountGamesView_def)
  from select_one_call [OF 1 2, of "[gameA, gameB, gameD]" fetchedNES
         "[TypeFilter ''mar'', Elapse 200, TypeFilter ''mario'', Elapse 500]"
         "mountGamesView 0" "''mario''" 500] 1 2 3
  show ?thesis by (simp add: 4 5 6 7)
qed

subsection \<open>The page after the list has changed\<close>

lemma click_next:
  assumes "gamesViewShown st" and "view st = Some gv" and "searchTerm gv = []"
    and "page gv * 10 < int (length (games st))" and "10 < length (games st)"
  shows "step ClickNext st = st\<lparr>view := Some (gv\<lparr>page := page gv + 1\<rparr>)\<rparr>"
proof -
  have i: "1 \<le> itemsPerPage" by (simp add: itemsPerPage_def)
  have a: "page gv + 1 \<le> totalPages itemsPerPage (games st)"
    using assms(4) page_le_totalPages [OF i, of "page gv + 1" "games st"]
    by (simp add: itemsPerPage_def)
  have b: "2 \<le> totalPages itemsPerPage (games st)"
    using assms(5) page_le_totalPages [OF i, of 2 "games st"]
    by (simp add: itemsPerPage_def)
  have c: "games st \<noteq> []" using assms(5) by auto
  from a b c assms show ?thesis
    by (simp add: step_def pagerShown_def filtered_empty_term handleNext_def Let_def)
qed

lemma save_step:
  assumes "settingsOpen st" and "tempIp st \<noteq> []" and "tempIp st \<noteq> misterIp st"
    and "indexReady st" and "selectedSystem st = Some s"
  shows "step SaveSettings st =
     st\<lparr>misterIp := tempIp st, loadingGames := True, error := None,
        pending := pending st @
          [\<lparr>origin = GenerateIndex,
            call = IndexCall (''http://'' @ tempIp st @ '':8182/api/games/index'')\<rparr>,
           \<lparr>origin = FetchGames,
            call = SearchCall (''http://'' @ tempIp st @ '':8182/api/games/search'') []
                     (sys_id s)\<rparr>],
        calls := calls st @
          [(clock st, IndexCall (''http://'' @ tempIp st @ '':8182/api/games/index'')),
           (clock st, SearchCall (''http://'' @ tempIp st @ '':8182/api/games/search'') []
                        (sys_id s))],
        settingsOpen := False\<rparr>"
  using assms
  by (simp add: step_def setMisterIp_def generateIndex_def doGlobalSearch_def fetchGames_def
        throttledFetch_def getApiUrl_def)

text \<open>
  Claim C6. The page shown is the slice \<open>items[(page-1)*pageSize : page*pageSize]\<close> of
  \<open>ceil(len(items)/pageSize)\<close> pages, and a page outside \<open>[1, totalPages]\<close> is clamped
  before slicing. The slice and the number of pages are as claimed (lemma
  \<open>pagination_slice_and_pages\<close>), and the two pager buttons clamp; but the page is state
  of the view, set back to 1 only when the filter term changes, and nothing clamps it
  when the list itself is replaced. With 50 games fetched and the view on page 5 of 5,
  the address of the device is changed in the settings; the list is fetched again, and
  23 games arrive. There are now 3 pages, the page is still 5, and the slice taken at
  page 5 is empty: the grid shows no game, although 23 match. (A change of the filter
  term then brings the page back to 1.)
\<close>

theorem stale_page_not_clamped:
  "map_option page (view pageFive) = Some 5
   \<and> totalPages itemsPerPage (filtered (games pageFive) []) = 5
   \<and> misterIp pageFive = ''mister.local''
   \<and> misterIp shrunkList = ''10.0.0.2''
   \<and> games shrunkList = fetchedList 23
   \<and> totalPages itemsPerPage (filtered (games shrunkList) []) = 3
   \<and> map_option page (view shrunkList) = Some 5
   \<and> shownGames shrunkList = []
   \<and> map_option page (view (run [TypeFilter ''game'', Elapse 500] shrunkList)) = Some 1"
proof -
  have r: "enabled (SelectSystem systemNES) readyApp" "viewConsistent readyApp"
    "pending readyApp = []" "clock readyApp = 0" "indexReady readyApp"
    "misterIp readyApp = ''mister.local''" "settingsOpen readyApp = False"
    by code_simp+
  define q where "q = \<lparr>origin = FetchGames,
      call = SearchCall (getApiUrl readyApp @ ''/api/games/search'') [] (sys_id systemNES)\<rparr>"
  define gv where "gv = mountGamesView 0"
  define s1 where
    "s1 = readyApp\<lparr>selectedSystem := Some systemNES, view := Some gv,
            loadingGames := True, error := None, pending := [q],
            calls := calls readyApp @ [(0, call q)]\<rparr>"
  define s2 where "s2 = s1\<lparr>pending := [], games := fetchedList 50, loadingGames := False\<rparr>"
  define s3 where "s3 = s2\<lparr>view := Some (gv\<lparr>page := 2\<rparr>)\<rparr>"
  define s4 where "s4 = s2\<lparr>view := Some (gv\<lparr>page := 3\<rparr>)\<rparr>"
  define s5 where "s5 = s2\<lparr>view := Some (gv\<lparr>page := 4\<rparr>)\<rparr>"
  define s6 where "s6 = s2\<lparr>view := Some (gv\<lparr>page := 5\<rparr>)\<rparr>"
  define s7 where "s7 = s6\<lparr>tempIp := ''mister.local'', settingsOpen := True\<rparr>"
  define s8 where "s8 = s7\<lparr>tempIp := ''10.0.0.2''\<rparr>"
  define idx where "idx = \<lparr>origin = GenerateIndex,
      call = IndexCall ''http://10.0.0.2:8182/api/games/index''\<rparr>"
  define q2 where "q2 = \<lparr>origin = FetchGames,
      call = SearchCall ''http://10.0.0.2:8182/api/games/search'' [] (sys_id systemNES)\<rparr>"
  define s9 where
    "s9 = s8\<lparr>misterIp := ''10.0.0.2'', loadingGames := True, error := None,
            pending := [idx, q2],
            calls := calls s8 @ [(0, call idx), (0, call q2)], settingsOpen := False\<rparr>"
  define s10 where "s10 = s9\<lparr>pending := [idx], games := fetchedList 23, loadingGames := False\<rparr>"
  note defs = s1_def s2_def s3_def s4_def s5_def s6_def s7_def s8_def s9_def s10_def
  have len: "length (fetchedList n) = n" for n by (simp add: fetchedList_def)
  have g: "searchTerm gv = []" "page gv = 1" "searchInput gv = []"
    by (simp_all add: gv_def mountGamesView_def)
  have 1: "step (SelectSystem systemNES) readyApp = s1"
    using step_select [OF r(1,2)] by (simp add: s1_def q_def gv_def r)
  have 2: "step (Settle 0 (RespOk (fetchedList 50))) s1 = s2"
    by (subst settle_fetch) (simp_all add: s1_def s2_def q_def)
  have shown: "gamesViewShown s2"
    using r by (simp add: gamesViewShown_def defs)
  have 3: "step ClickNext s2 = s3"
    using shown by (subst click_next [where gv = gv]) (simp_all add: defs g len gamesViewShown_def)
  have 4: "step ClickNext s3 = s4"
    using shown
    by (subst click_next [where gv = "gv\<lparr>page := 2\<rparr>"])
       (simp_all add: defs g len gamesViewShown_def)
  have 5: "step ClickNext s4 = s5"
    using shown
    by (subst click_next [where gv = "gv\<lparr>page := 3\<rparr>"])
       (simp_all add: defs g len gamesViewShown_def)
  have 6: "step ClickNext s5 = s6"
    using shown
    by (subst click_next [where gv = "gv\<lparr>page := 4\<rparr>"])
       (simp_all add: defs g len gamesViewShown_def)
  have p5: "pageFive = s6"
    by (simp only: pageFive_def run.simps 1 2 3 4 5 6)
  have 7: "step OpenSettings s6 = s7"
    using r by (simp add: step_def defs)
  have 8: "step (TypeIp ''10.0.0.2'') s7 = s8"
    by (simp add: step_def defs)
  have 9: "step SaveSettings s8 = s9"
    using r shown
    by (subst save_step [where s = systemNES])
       (simp_all add: defs gamesViewShown_def idx_def q2_def)
  have 10: "step (Settle 1 (RespOk (fetchedList 23))) s9 = s10"
  proof -
    have a: "1 < length (pending s9)" by (simp add: s9_def)
    have b: "origin (pending s9 ! 1) = FetchGames" by (simp add: s9_def q2_def)
    have "step (Settle 1 (RespOk (fetchedList 23))) s9
            = s9\<lparr>pending := take 1 (pending s9) @ drop (Suc 1) (pending s9),
                 games := fetchedList 23, loadingGames := False\<rparr>"
      by (rule settle_fetch [OF a b])
    also have "\<dots> = s10" by (simp add: s9_def s10_def)
    finally show ?thesis .
  qed
  have sh: "shrunkList = s10"
    by (simp only: shrunkList_def p5 run.simps 7 8 9 10)
  have v10: "view s10 = Some (gv\<lparr>page := 5\<rparr>)" "games s10 = fetchedList 23"
    "misterIp s10 = ''10.0.0.2''" "gamesViewShown s10" "clock s10 = 0"
    using shown r by (simp_all add: defs gamesViewShown_def)
  have v6: "view s6 = Some (gv\<lparr>page := 5\<rparr>)" "games s6 = fetchedList 50"
    "misterIp s6 = ''mister.local''"
    using r by (simp_all add: defs)
  have i: "1 \<le> itemsPerPage" by (simp add: itemsPerPage_def)
  have tp: "totalPages itemsPerPage (fetchedList 50) = 5" "totalPages itemsPerPage (fetchedList 23) = 3"
    by (simp_all add: totalPages_def len itemsPerPage_def)
  have empty: "shownGames s10 = []"
    by (simp add: shownGames_def v10 g filtered_empty_term pagedGames_def Let_def itemsPerPage_def
          slice_beyond len)
  have reset: "map_option page (view (run [TypeFilter ''game'', Elapse 500] s10)) = Some 1"
  proof -
    define gv1 where
      "gv1 = gv\<lparr>page := 5, searchInput := ''game'', viewTimer := Some (500, ''game'')\<rparr>"
    have a: "step (TypeFilter ''game'') s10 = s10\<lparr>view := Some gv1\<rparr>"
      by (subst type_filter_step [where gv = "gv\<lparr>page := 5\<rparr>"])
         (simp_all add: v10 g gv1_def)
    have b: "view (step (Elapse 500) (s10\<lparr>view := Some gv1\<rparr>))
               = Some (setSearchTerm ''game'' (gv1\<lparr>viewTimer := None\<rparr>))"
      using elapse_view [where st = "s10\<lparr>view := Some gv1\<rparr>" and gv = gv1 and dl = 500
                          and v = "''game''" and w = 500]
      by (simp add: gv1_def v10)
    have c: "view (run [TypeFilter ''game'', Elapse 500] s10)
               = Some (setSearchTerm ''game'' (gv1\<lparr>viewTimer := None\<rparr>))"
      by (simp only: run.simps a b)
    have d: "page (setSearchTerm ''game'' (gv1\<lparr>viewTimer := None\<rparr>)) = 1"
      by (simp add: setSearchTerm_def gv1_def g)
    show ?thesis by (simp only: c option.map d)
  qed
  have f1: "map_option page (view pageFive) = Some 5"
    and f2: "totalPages itemsPerPage (filtered (games pageFive) []) = 5"
    and f3: "misterIp pageFive = ''mister.local''"
    by (simp_all add: p5 v6 tp filtered_empty_term)
  have f4: "misterIp shrunkList = ''10.0.0.2''"
    and f5: "games shrunkList = fetchedList 23"
    and f6: "totalPages itemsPerPage (filtered (games shrunkList) []) = 3"
    and f7: "map_option page (view shrunkList) = Some 5"
    and f8: "shownGames shrunkList = []"
    by (simp_all add: sh v10 tp empty filtered_empty_term)
  have f9: "map_option page (view (run [TypeFilter ''game'', Elapse 500] shrunkList)) = Some 1"
    by (simp only: sh reset)
  from f1 f2 f3 f4 f5 f6 f7 f8 f9 show ?thesis by blast
qed

end
